theory Spec2Isabelle
  imports Main
begin

section \<open>Go values used by the Bitbucket Server client\<close>

text \<open>
  The client of \<^verbatim>\<open>server/events/vcs/bitbucketserver/client.go\<close> is embedded
  function by function. Go strings are byte strings (\<open>string\<close>), Go's \<open>int\<close> is
  \<open>int\<close> (the only arithmetic of the file is the loop counter, bounded by 1000).
  Everything the file calls but does not define (the HTTP transport, \<open>net/http\<close>,
  \<open>regexp\<close>, \<open>encoding/json\<close>) is a field of the records \<open>Client\<close> and \<open>libs\<close>, so
  every theorem holds for any behaviour of these collaborators.
\<close>

subsection \<open>Formatting\<close>

text \<open>An argument of \<open>fmt.Sprintf\<close>, \<open>fmt.Errorf\<close> or \<open>errors.Wrapf\<close>.\<close>

datatype fmt_arg = S string | D int

definition digit_char :: "nat \<Rightarrow> char" where
  "digit_char n = ''0123456789'' ! n"

fun digits :: "nat \<Rightarrow> string" where
  "digits n = (if n < 10 then [digit_char n] else digits (n div 10) @ [digit_char (n mod 10)])"

declare digits.simps [simp del]

text \<open>The verb \<open>%d\<close> on an \<open>int\<close>: decimal digits, with a minus sign when negative.\<close>

definition itoa :: "int \<Rightarrow> string" where
  "itoa i = (if i < 0 then CHR ''-'' # digits (nat (- i)) else digits (nat i))"

text \<open>
  \<open>fmt.Sprintf\<close> for the verbs the file passes to it, \<open>%s\<close> on a string and \<open>%d\<close> on an
  integer; every other byte of the format is copied. (A verb without its argument does
  not occur in the file; the model drops it.)
\<close>

fun Sprintf :: "string \<Rightarrow> fmt_arg list \<Rightarrow> string" where
  "Sprintf [] args = []"
| "Sprintf [c] args = [c]"
| "Sprintf (c # v # cs) args =
     (if c = CHR ''%'' \<and> (v = CHR ''s'' \<or> v = CHR ''d'') then
        (case args of
           [] \<Rightarrow> Sprintf cs []
         | S x # rest \<Rightarrow> x @ Sprintf cs rest
         | D n # rest \<Rightarrow> itoa n @ Sprintf cs rest)
      else c # Sprintf (v # cs) args)"

subsection \<open>Errors\<close>

text \<open>
  A Go \<open>error\<close> value. \<open>fmt.Errorf\<close> and \<open>errors.Wrapf\<close> keep their format string and
  arguments as the source writes them (the verb \<open>%q\<close> quotes its argument in the
  message; the value carried is the argument). \<open>External\<close> is an error made by a
  library (transport, JSON decoder, regexp compiler); \<open>ValidationErrors\<close> is the
  validator's error, with the names of the fields it misses. \<open>NilPointerPanic\<close> is not
  a returned error: it stands for the run-time panic of dereferencing a nil pointer,
  which ends the operation.
\<close>

datatype error =
    Errorf string "fmt_arg list"
  | Wrap error string
  | Wrapf error string "fmt_arg list"
  | External string
  | ValidationErrors "string list"
  | NilPointerPanic

subsection \<open>The orchestrator's domain model\<close>

text \<open>
  The package \<open>models\<close> is imported by the file; of its types only the fields the file
  reads are kept.
\<close>

record Repo =
  Name :: string
  SanitizedCloneURL :: string

record models_PullRequest =
  Num :: int
  BaseRepo :: Repo
  HeadBranch :: string
  HeadCommit :: string

record PullRequestOptions =
  DeleteSourceBranchOnMerge :: bool

record ApprovalStatus =
  IsApproved :: bool

text \<open>
  \<open>models.CommitStatus\<close> is an integer type with the named constants
  \<open>PendingCommitStatus\<close>, \<open>SuccessCommitStatus\<close> and \<open>FailedCommitStatus\<close>;
  \<open>OtherCommitStatus n\<close> is any value of the type that is none of the three.
\<close>

datatype CommitStatus =
    PendingCommitStatus
  | SuccessCommitStatus
  | FailedCommitStatus
  | OtherCommitStatus int

subsection \<open>Requests, responses and the client\<close>

record request =
  Method :: string
  URL :: string
  Header :: "(string \<times> string) list"
  ReqBody :: "string option"

text \<open>
  What \<open>HTTPClient.Do\<close> returns when it does not fail: the status code and the body
  stream, given by what \<open>io.ReadAll\<close> makes of it (the bytes read, and the error that
  ended the read, if any).
\<close>

record response =
  StatusCode :: int
  Body :: string
  ReadErr :: "error option"

text \<open>
  The transport answers a request knowing the requests sent before it, so a server whose
  state changes between calls is covered. The operations thread the list of requests
  handed to \<open>HTTPClient.Do\<close> so far: it is the record of the network calls made.
\<close>

type_synonym transport = "request list \<Rightarrow> request \<Rightarrow> error + response"

record Client =
  HTTPClient :: transport
  Username :: string
  Password :: string
  BaseURL :: string
  AtlantisURL :: string

record DeleteSourceBranch =
  DSB_Name :: string
  DryRun :: bool

text \<open>The two shapes the file hands to \<open>json.Marshal\<close>.\<close>

datatype marshal_input =
    StringMap "(string \<times> string) list"
  | DeleteSourceBranchValue DeleteSourceBranch

subsection \<open>Response shapes and their validation\<close>

text \<open>
  Modelled from the spec: the response types \<open>Changes\<close>, \<open>PullRequest\<close> and
  \<open>MergeStatus\<close> are declared in the package's models file, which is not among the
  sources. The fields are those \<^verbatim>\<open>client.go\<close> reads; a field it dereferences
  (\<^verbatim>\<open>*changes.IsLastPage\<close>) is a pointer, \<open>None\<close> when the response omits it
  (section 9, nil-sentinel pattern). Section 3 of the spec says which are required:
  the current path of a change entry and the "is last page" flag (the next page
  offset is optional, the prior path is present only for renames); the version token
  and the "approved" boolean of each reviewer entry; "can merge" and "conflicted".
\<close>

record PathName =
  ToString :: "string option"

record ChangeValue =
  Path :: PathName
  SrcPath :: "PathName option"

record Changes =
  Values :: "ChangeValue list"
  NextPageStart :: "int option"
  IsLastPage :: "bool option"

record Reviewer =
  Approved :: "bool option"

record PullRequest =
  Reviewers :: "Reviewer list"
  Version :: "int option"

record MergeStatus =
  CanMerge :: "bool option"
  Conflicted :: "bool option"

text \<open>
  Modelled from the spec: \<^verbatim>\<open>validator.New().Struct(x)\<close> follows the
  \<open>validate\<close> tags of the absent type declarations. Section 4.1: it fails when one
  or more fields declared required are absent, and has no other effect.
\<close>

definition required :: "string \<Rightarrow> 'a option \<Rightarrow> string list" where
  "required field v = (case v of None \<Rightarrow> [field] | Some _ \<Rightarrow> [])"

definition validation_result :: "string list \<Rightarrow> error option" where
  "validation_result missing = (if missing = [] then None else Some (ValidationErrors missing))"

definition missing_ChangeValue :: "ChangeValue \<Rightarrow> string list" where
  "missing_ChangeValue v =
     required ''Path.ToString'' (ToString (Path v)) @
     (case SrcPath v of
        None \<Rightarrow> []
      | Some src \<Rightarrow> required ''SrcPath.ToString'' (ToString src))"

definition validate_Changes :: "Changes \<Rightarrow> error option" where
  "validate_Changes changes =
     validation_result
       (concat (map missing_ChangeValue (Values changes)) @
        required ''IsLastPage'' (IsLastPage changes))"

definition validate_PullRequest :: "PullRequest \<Rightarrow> error option" where
  "validate_PullRequest pullResp =
     validation_result
       (concat (map (\<lambda>reviewer. required ''Approved'' (Approved reviewer)) (Reviewers pullResp)) @
        required ''Version'' (Version pullResp))"

definition validate_MergeStatus :: "MergeStatus \<Rightarrow> error option" where
  "validate_MergeStatus mergeStatus =
     validation_result
       (required ''CanMerge'' (CanMerge mergeStatus) @
        required ''Conflicted'' (Conflicted mergeStatus))"

subsection \<open>Library calls\<close>

text \<open>
  The library functions the file calls, as parameters: \<open>http.NewRequest\<close> (the error
  it may return for a method and URL), \<open>regexp.Compile\<close> (likewise, for an
  expression), \<open>FindStringSubmatch\<close> (expression, subject), \<open>json.Unmarshal\<close> into each
  of the three response types, and \<open>json.Marshal\<close>.
\<close>

record libs =
  NewRequest :: "string \<Rightarrow> string \<Rightarrow> error option"
  regexp_Compile :: "string \<Rightarrow> error option"
  FindStringSubmatch :: "string \<Rightarrow> string \<Rightarrow> string list"
  Unmarshal_Changes :: "string \<Rightarrow> error + Changes"
  Unmarshal_PullRequest :: "string \<Rightarrow> error + PullRequest"
  Unmarshal_MergeStatus :: "string \<Rightarrow> error + MergeStatus"
  Marshal :: "marshal_input \<Rightarrow> error + string"

text \<open>\<open>strings.Join\<close>.\<close>

fun Join :: "string list \<Rightarrow> string \<Rightarrow> string" where
  "Join [] sep = []"
| "Join [x] sep = x"
| "Join (x # y # ys) sep = x @ sep @ Join (y # ys) sep"

section \<open>The client\<close>

subsection \<open>GetProjectKey\<close>

definition GetProjectKey :: "libs \<Rightarrow> string \<Rightarrow> string \<Rightarrow> error + string" where
  "GetProjectKey L repoName cloneURL =
     (let expr = Sprintf (''.*/(.*?)/%s'' @ [CHR 0x5C] @ ''.git'') [S repoName] in
      case regexp_Compile L expr of
        Some err \<Rightarrow> Inl (Wrapf err ''constructing regex from %q'' [S expr])
      | None \<Rightarrow>
          (let matches = FindStringSubmatch L expr cloneURL in
           if length matches \<noteq> 2 then
             Inl (Errorf ''could not extract project key from %q, regex returned %q''
                    [S cloneURL, S (Join matches '','')])
           else Inr (matches ! 1)))"

subsection \<open>prepRequest and makeRequest\<close>

definition prepRequest :: "Client \<Rightarrow> libs \<Rightarrow> string \<Rightarrow> string \<Rightarrow> string option \<Rightarrow> error + request" where
  "prepRequest b L method path body =
     (case NewRequest L method path of
        Some err \<Rightarrow> Inl err
      | None \<Rightarrow>
          Inr \<lparr>Method = method, URL = path,
               Header =
                 [(''Authorization'', ''Bearer '' @ Password b)] @
                 (if body \<noteq> None then [(''Content-Type'', ''application/json'')] else []) @
                 [(''X-Atlassian-Token'', ''no-check'')],
               ReqBody = body\<rparr>)"

text \<open>
  The result is paired with the requests handed to the transport so far; a request
  that could not be constructed is not sent.
\<close>

definition makeRequest ::
  "Client \<Rightarrow> libs \<Rightarrow> string \<Rightarrow> string \<Rightarrow> string option \<Rightarrow> request list \<Rightarrow>
   (error + string) \<times> request list" where
  "makeRequest b L method path reqBody sent =
     (case prepRequest b L method path reqBody of
        Inl err \<Rightarrow> (Inl (Wrap err ''constructing request''), sent)
      | Inr req \<Rightarrow>
          (case HTTPClient b sent req of
             Inl err \<Rightarrow> (Inl err, sent @ [req])
           | Inr resp \<Rightarrow>
               (let requestStr = Sprintf ''%s %s'' [S method, S path] in
                if StatusCode resp \<noteq> 200 \<and> StatusCode resp \<noteq> 201 \<and> StatusCode resp \<noteq> 204 then
                  (Inl (Errorf ''making request %q unexpected status code: %d, body: %s''
                          [S requestStr, D (StatusCode resp), S (Body resp)]),
                   sent @ [req])
                else
                  (case ReadErr resp of
                     Some err \<Rightarrow>
                       (Inl (Wrapf err ''reading response from request %q'' [S requestStr]),
                        sent @ [req])
                   | None \<Rightarrow> (Inr (Body resp), sent @ [req])))))"

subsection \<open>GetModifiedFiles\<close>

text \<open>
  The inner loop over \<^verbatim>\<open>changes.Values\<close>: the current path is appended, then
  the prior path when \<^verbatim>\<open>v.SrcPath != nil\<close>.
\<close>

fun appendValues :: "string list \<Rightarrow> ChangeValue list \<Rightarrow> error + string list" where
  "appendValues files [] = Inr files"
| "appendValues files (v # vs) =
     (case ToString (Path v) of
        None \<Rightarrow> Inl NilPointerPanic
      | Some path \<Rightarrow>
          (case SrcPath v of
             None \<Rightarrow> appendValues (files @ [path]) vs
           | Some src \<Rightarrow>
               (case ToString src of
                  None \<Rightarrow> Inl NilPointerPanic
                | Some srcPath \<Rightarrow> appendValues (files @ [path] @ [srcPath]) vs)))"

definition maxLoops :: nat where
  "maxLoops = 1000"

definition pageURL :: "string \<Rightarrow> int \<Rightarrow> string" where
  "pageURL baseURL nextPageStart = Sprintf ''%s?start=%d'' [S baseURL, D nextPageStart]"

text \<open>
  The paging loop, \<^verbatim>\<open>for i := 0; i < maxLoops; i++\<close>, from the state before
  iteration \<open>i\<close>: the next page offset, the files gathered and the requests sent.
\<close>

function pageLoop ::
  "Client \<Rightarrow> libs \<Rightarrow> string \<Rightarrow> nat \<Rightarrow> int \<Rightarrow> string list \<Rightarrow> request list \<Rightarrow>
   (error + string list) \<times> request list" where
  "pageLoop b L baseURL i nextPageStart files sent =
     (if i < maxLoops then
        (case makeRequest b L ''GET'' (pageURL baseURL nextPageStart) None sent of
           (Inl err, sent') \<Rightarrow> (Inl err, sent')
         | (Inr resp, sent') \<Rightarrow>
             (case Unmarshal_Changes L resp of
                Inl err \<Rightarrow> (Inl (Wrapf err ''Could not parse response %q'' [S resp]), sent')
              | Inr changes \<Rightarrow>
                  (case validate_Changes changes of
                     Some err \<Rightarrow>
                       (Inl (Wrapf err ''API response %q was missing fields'' [S resp]), sent')
                   | None \<Rightarrow>
                       (case appendValues files (Values changes) of
                          Inl err \<Rightarrow> (Inl err, sent')
                        | Inr files' \<Rightarrow>
                            (case IsLastPage changes of
                               None \<Rightarrow> (Inl NilPointerPanic, sent')
                             | Some True \<Rightarrow> (Inr files', sent')
                             | Some False \<Rightarrow>
                                 (case NextPageStart changes of
                                    None \<Rightarrow> (Inl NilPointerPanic, sent')
                                  | Some n \<Rightarrow> pageLoop b L baseURL (Suc i) n files' sent'))))))
      else (Inr files, sent))"
  by pat_completeness auto
termination
  by (relation "measure (\<lambda>(b, L, baseURL, i, nextPageStart, files, sent). maxLoops - i)") auto

declare pageLoop.simps [simp del]

text \<open>
  The map \<^verbatim>\<open>hash\<close> of type \<^verbatim>\<open>map[string]bool\<close>: reading a missing key
  gives \<open>false\<close>.
\<close>

definition hash_get :: "(string \<rightharpoonup> bool) \<Rightarrow> string \<Rightarrow> bool" where
  "hash_get hash f = (case hash f of None \<Rightarrow> False | Some v \<Rightarrow> v)"

fun uniqueLoop :: "(string \<rightharpoonup> bool) \<Rightarrow> string list \<Rightarrow> string list \<Rightarrow> string list" where
  "uniqueLoop hash unique [] = unique"
| "uniqueLoop hash unique (f # fs) =
     (if \<not> hash_get hash f then uniqueLoop (hash(f \<mapsto> True)) (unique @ [f]) fs
      else uniqueLoop hash unique fs)"

definition changesURL :: "Client \<Rightarrow> string \<Rightarrow> Repo \<Rightarrow> models_PullRequest \<Rightarrow> string" where
  "changesURL b projectKey repo pull =
     Sprintf ''%s/rest/api/1.0/projects/%s/repos/%s/pull-requests/%d/changes''
       [S (BaseURL b), S projectKey, S (Name repo), D (Num pull)]"

definition GetModifiedFiles ::
  "Client \<Rightarrow> libs \<Rightarrow> Repo \<Rightarrow> models_PullRequest \<Rightarrow> request list \<Rightarrow>
   (error + string list) \<times> request list" where
  "GetModifiedFiles b L repo pull sent =
     (case GetProjectKey L (Name repo) (SanitizedCloneURL repo) of
        Inl err \<Rightarrow> (Inl err, sent)
      | Inr projectKey \<Rightarrow>
          (case pageLoop b L (changesURL b projectKey repo pull) 0 0 [] sent of
             (Inl err, sent') \<Rightarrow> (Inl err, sent')
           | (Inr files, sent') \<Rightarrow> (Inr (uniqueLoop Map.empty [] files), sent')))"

subsection \<open>PullIsApproved and PullIsMergeable\<close>

definition pullURL :: "Client \<Rightarrow> string \<Rightarrow> string \<Rightarrow> int \<Rightarrow> string" where
  "pullURL b projectKey repoName num =
     Sprintf ''%s/rest/api/1.0/projects/%s/repos/%s/pull-requests/%d''
       [S (BaseURL b), S projectKey, S repoName, D num]"

text \<open>
  The loop over the reviewers returns at the first one whose \<open>Approved\<close> is true; the
  zero value of \<^verbatim>\<open>models.ApprovalStatus\<close> has \<open>IsApproved = false\<close>.
\<close>

fun reviewersLoop :: "Reviewer list \<Rightarrow> error + ApprovalStatus" where
  "reviewersLoop [] = Inr \<lparr>IsApproved = False\<rparr>"
| "reviewersLoop (reviewer # rest) =
     (case Approved reviewer of
        None \<Rightarrow> Inl NilPointerPanic
      | Some True \<Rightarrow> Inr \<lparr>IsApproved = True\<rparr>
      | Some False \<Rightarrow> reviewersLoop rest)"

definition PullIsApproved ::
  "Client \<Rightarrow> libs \<Rightarrow> Repo \<Rightarrow> models_PullRequest \<Rightarrow> request list \<Rightarrow>
   (error + ApprovalStatus) \<times> request list" where
  "PullIsApproved b L repo pull sent =
     (case GetProjectKey L (Name repo) (SanitizedCloneURL repo) of
        Inl err \<Rightarrow> (Inl err, sent)
      | Inr projectKey \<Rightarrow>
          (case makeRequest b L ''GET'' (pullURL b projectKey (Name repo) (Num pull)) None sent of
             (Inl err, sent') \<Rightarrow> (Inl err, sent')
           | (Inr resp, sent') \<Rightarrow>
               (case Unmarshal_PullRequest L resp of
                  Inl err \<Rightarrow> (Inl (Wrapf err ''Could not parse response %q'' [S resp]), sent')
                | Inr pullResp \<Rightarrow>
                    (case validate_PullRequest pullResp of
                       Some err \<Rightarrow>
                         (Inl (Wrapf err ''API response %q was missing fields'' [S resp]), sent')
                     | None \<Rightarrow> (reviewersLoop (Reviewers pullResp), sent')))))"

definition mergeStatusURL :: "Client \<Rightarrow> string \<Rightarrow> string \<Rightarrow> int \<Rightarrow> string" where
  "mergeStatusURL b projectKey repoName num =
     Sprintf ''%s/rest/api/1.0/projects/%s/repos/%s/pull-requests/%d/merge''
       [S (BaseURL b), S projectKey, S repoName, D num]"

definition PullIsMergeable ::
  "Client \<Rightarrow> libs \<Rightarrow> Repo \<Rightarrow> models_PullRequest \<Rightarrow> request list \<Rightarrow>
   (error + bool) \<times> request list" where
  "PullIsMergeable b L repo pull sent =
     (case GetProjectKey L (Name repo) (SanitizedCloneURL repo) of
        Inl err \<Rightarrow> (Inl err, sent)
      | Inr projectKey \<Rightarrow>
          (case makeRequest b L ''GET''
                  (mergeStatusURL b projectKey (Name repo) (Num pull)) None sent of
             (Inl err, sent') \<Rightarrow> (Inl err, sent')
           | (Inr resp, sent') \<Rightarrow>
               (case Unmarshal_MergeStatus L resp of
                  Inl err \<Rightarrow> (Inl (Wrapf err ''Could not parse response %q'' [S resp]), sent')
                | Inr mergeStatus \<Rightarrow>
                    (case validate_MergeStatus mergeStatus of
                       Some err \<Rightarrow>
                         (Inl (Wrapf err ''API response %q was missing fields'' [S resp]), sent')
                     | None \<Rightarrow>
                         (case CanMerge mergeStatus of
                            None \<Rightarrow> (Inl NilPointerPanic, sent')
                          | Some False \<Rightarrow> (Inr False, sent')
                          | Some True \<Rightarrow>
                              (case Conflicted mergeStatus of
                                 None \<Rightarrow> (Inl NilPointerPanic, sent')
                               | Some conflicted \<Rightarrow>
                                   (if \<not> conflicted then (Inr True, sent')
                                    else (Inr False, sent'))))))))"

subsection \<open>SplitComment\<close>

text \<open>
  Modelled from the spec: \<^verbatim>\<open>common.SplitComment\<close> belongs to the package
  \<^verbatim>\<open>server/events/vcs/common\<close>, which is not among the sources. Section 4.3: from
  a comment, a maximum chunk length, a closing suffix for every non-final chunk, an
  opening prefix for every non-initial chunk and two sizing parameters reserved for
  structural overhead, it gives the chunks in order; a comment within the limit is one
  chunk without markers. The split point is an internal policy: here the text is cut
  at the largest length that leaves room for both markers and the reserved overhead.
\<close>

function pieces :: "nat \<Rightarrow> string \<Rightarrow> string list" where
  "pieces room text =
     (if room = 0 \<or> length text \<le> room then [text]
      else take room text # pieces room (drop room text))"
  by pat_completeness auto
termination
  by (relation "measure (\<lambda>(room, text). length text)") auto

declare pieces.simps [simp del]

fun continued :: "string \<Rightarrow> string \<Rightarrow> string list \<Rightarrow> string list" where
  "continued sepEnd sepStart [] = []"
| "continued sepEnd sepStart [p] = [sepStart @ p]"
| "continued sepEnd sepStart (p # q # ps) =
     (sepStart @ p @ sepEnd) # continued sepEnd sepStart (q # ps)"

fun withMarkers :: "string \<Rightarrow> string \<Rightarrow> string list \<Rightarrow> string list" where
  "withMarkers sepEnd sepStart [] = []"
| "withMarkers sepEnd sepStart [p] = [p]"
| "withMarkers sepEnd sepStart (p # q # ps) =
     (p @ sepEnd) # continued sepEnd sepStart (q # ps)"

definition SplitComment ::
  "string \<Rightarrow> int \<Rightarrow> string \<Rightarrow> string \<Rightarrow> int \<Rightarrow> string \<Rightarrow> string list" where
  "SplitComment comment maxSize sepEnd sepStart reserved reservedText =
     (if int (length comment) \<le> maxSize then [comment]
      else withMarkers sepEnd sepStart
             (pieces (nat (maxSize - int (length sepEnd) - int (length sepStart)
                           - reserved - int (length reservedText)))
                comment))"

text \<open>
  Reading the chunks back, for the round trip of section 8: the closing suffix is cut
  from every chunk but the last, the opening prefix from every chunk but the first.
\<close>

definition dropEnd :: "string \<Rightarrow> string \<Rightarrow> string" where
  "dropEnd sepEnd chunk = take (length chunk - length sepEnd) chunk"

fun stripContinued :: "string \<Rightarrow> string \<Rightarrow> string list \<Rightarrow> string list" where
  "stripContinued sepEnd sepStart [] = []"
| "stripContinued sepEnd sepStart [c] = [drop (length sepStart) c]"
| "stripContinued sepEnd sepStart (c # d # cs) =
     dropEnd sepEnd (drop (length sepStart) c) # stripContinued sepEnd sepStart (d # cs)"

fun stripMarkers :: "string \<Rightarrow> string \<Rightarrow> string list \<Rightarrow> string list" where
  "stripMarkers sepEnd sepStart [] = []"
| "stripMarkers sepEnd sepStart [c] = [c]"
| "stripMarkers sepEnd sepStart (c # d # cs) =
     dropEnd sepEnd c # stripContinued sepEnd sepStart (d # cs)"

subsection \<open>CreateComment\<close>

definition maxCommentLength :: int where
  "maxCommentLength = 32768"

definition sepEnd :: string where
  "sepEnd = ''\<newline>```\<newline>**Warning**: Output length greater than max comment size. Continued in next comment.''"

definition sepStart :: string where
  "sepStart = ''Continued from previous comment.\<newline>```diff\<newline>''"

definition commentsURL :: "Client \<Rightarrow> string \<Rightarrow> Repo \<Rightarrow> int \<Rightarrow> string" where
  "commentsURL b projectKey repo pullNum =
     Sprintf ''%s/rest/api/1.0/projects/%s/repos/%s/pull-requests/%d/comments''
       [S (BaseURL b), S projectKey, S (Name repo), D pullNum]"

definition postComment ::
  "Client \<Rightarrow> libs \<Rightarrow> Repo \<Rightarrow> int \<Rightarrow> string \<Rightarrow> request list \<Rightarrow> error option \<times> request list" where
  "postComment b L repo pullNum comment sent =
     (case Marshal L (StringMap [(''text'', comment)]) of
        Inl err \<Rightarrow> (Some (Wrap err ''json encoding''), sent)
      | Inr bodyBytes \<Rightarrow>
          (case GetProjectKey L (Name repo) (SanitizedCloneURL repo) of
             Inl err \<Rightarrow> (Some err, sent)
           | Inr projectKey \<Rightarrow>
               (case makeRequest b L ''POST'' (commentsURL b projectKey repo pullNum)
                       (Some bodyBytes) sent of
                  (Inl err, sent') \<Rightarrow> (Some err, sent')
                | (Inr _, sent') \<Rightarrow> (None, sent'))))"

fun postComments ::
  "Client \<Rightarrow> libs \<Rightarrow> Repo \<Rightarrow> int \<Rightarrow> string list \<Rightarrow> request list \<Rightarrow> error option \<times> request list" where
  "postComments b L repo pullNum [] sent = (None, sent)"
| "postComments b L repo pullNum (c # comments) sent =
     (case postComment b L repo pullNum c sent of
        (Some err, sent') \<Rightarrow> (Some err, sent')
      | (None, sent') \<Rightarrow> postComments b L repo pullNum comments sent')"

definition CreateComment ::
  "Client \<Rightarrow> libs \<Rightarrow> Repo \<Rightarrow> int \<Rightarrow> string \<Rightarrow> request list \<Rightarrow> error option \<times> request list" where
  "CreateComment b L repo pullNum comment sent =
     postComments b L repo pullNum
       (SplitComment comment maxCommentLength sepEnd sepStart 0 []) sent"

subsection \<open>UpdateStatus\<close>

text \<open>The \<^verbatim>\<open>switch\<close> on the status, with \<open>bbState\<close> initialised to \<open>FAILED\<close>.\<close>

definition bbState :: "CommitStatus \<Rightarrow> string" where
  "bbState status =
     (case status of
        PendingCommitStatus \<Rightarrow> ''INPROGRESS''
      | SuccessCommitStatus \<Rightarrow> ''SUCCESSFUL''
      | FailedCommitStatus \<Rightarrow> ''FAILED''
      | OtherCommitStatus _ \<Rightarrow> ''FAILED'')"

text \<open>The call of \<^verbatim>\<open>logger.Info\<close> writes a log line and is left out.\<close>

definition UpdateStatus ::
  "Client \<Rightarrow> libs \<Rightarrow> models_PullRequest \<Rightarrow> CommitStatus \<Rightarrow> string \<Rightarrow> string \<Rightarrow> string \<Rightarrow>
   request list \<Rightarrow> error option \<times> request list" where
  "UpdateStatus b L pull status src description url sent =
     (let url' = (if url = [] then AtlantisURL b else url) in
      case Marshal L (StringMap [(''key'', src), (''url'', url'), (''state'', bbState status),
                                 (''description'', description)]) of
        Inl err \<Rightarrow> (Some (Wrap err ''json encoding''), sent)
      | Inr bodyBytes \<Rightarrow>
          (case makeRequest b L ''POST''
                  (Sprintf ''%s/rest/build-status/1.0/commits/%s'' [S (BaseURL b), S (HeadCommit pull)])
                  (Some bodyBytes) sent of
             (Inl err, sent') \<Rightarrow> (Some err, sent')
           | (Inr _, sent') \<Rightarrow> (None, sent')))"

subsection \<open>MergePull\<close>

definition mergeURL :: "Client \<Rightarrow> string \<Rightarrow> string \<Rightarrow> int \<Rightarrow> int \<Rightarrow> string" where
  "mergeURL b projectKey repoName num version =
     Sprintf ''%s/rest/api/1.0/projects/%s/repos/%s/pull-requests/%d/merge?version=%d''
       [S (BaseURL b), S projectKey, S repoName, D num, D version]"

definition branchesURL :: "Client \<Rightarrow> string \<Rightarrow> string \<Rightarrow> string" where
  "branchesURL b projectKey repoName =
     Sprintf ''%s/rest/branch-utils/1.0/projects/%s/repos/%s/branches''
       [S (BaseURL b), S projectKey, S repoName]"

definition MergePull ::
  "Client \<Rightarrow> libs \<Rightarrow> models_PullRequest \<Rightarrow> PullRequestOptions \<Rightarrow> request list \<Rightarrow>
   error option \<times> request list" where
  "MergePull b L pull pullOptions sent =
     (case GetProjectKey L (Name (BaseRepo pull)) (SanitizedCloneURL (BaseRepo pull)) of
        Inl err \<Rightarrow> (Some err, sent)
      | Inr projectKey \<Rightarrow>
          (case makeRequest b L ''GET''
                  (pullURL b projectKey (Name (BaseRepo pull)) (Num pull)) None sent of
             (Inl err, sent1) \<Rightarrow> (Some err, sent1)
           | (Inr resp, sent1) \<Rightarrow>
               (case Unmarshal_PullRequest L resp of
                  Inl err \<Rightarrow> (Some (Wrapf err ''Could not parse response %q'' [S resp]), sent1)
                | Inr pullResp \<Rightarrow>
                    (case validate_PullRequest pullResp of
                       Some err \<Rightarrow>
                         (Some (Wrapf err ''API response %q was missing fields'' [S resp]), sent1)
                     | None \<Rightarrow>
                         (case Version pullResp of
                            None \<Rightarrow> (Some NilPointerPanic, sent1)
                          | Some version \<Rightarrow>
                              (case makeRequest b L ''POST''
                                      (mergeURL b projectKey (Name (BaseRepo pull)) (Num pull) version)
                                      None sent1 of
                                 (Inl err, sent2) \<Rightarrow> (Some err, sent2)
                               | (Inr _, sent2) \<Rightarrow>
                                   (if DeleteSourceBranchOnMerge pullOptions then
                                      (case Marshal L (DeleteSourceBranchValue
                                              \<lparr>DSB_Name = ''refs/heads/'' @ HeadBranch pull,
                                               DryRun = False\<rparr>) of
                                         Inl err \<Rightarrow> (Some (Wrap err ''json encoding''), sent2)
                                       | Inr bodyBytes \<Rightarrow>
                                           (case makeRequest b L ''DELETE''
                                                   (branchesURL b projectKey (Name (BaseRepo pull)))
                                                   (Some bodyBytes) sent2 of
                                              (Inl err, sent3) \<Rightarrow> (Some err, sent3)
                                            | (Inr _, sent3) \<Rightarrow> (None, sent3)))
                                    else (None, sent2))))))))"

subsection \<open>Operations without an implementation\<close>

text \<open>
  The four bodies take no argument into account and call nothing; the requests sent
  are returned as they came.
\<close>

definition DiscardReviews :: "request list \<Rightarrow> error option \<times> request list" where
  "DiscardReviews sent = (None, sent)"

definition GetFileContent :: "request list \<Rightarrow> (bool \<times> string \<times> error option) \<times> request list" where
  "GetFileContent sent = ((False, [], Some (Errorf ''not implemented'' [])), sent)"

definition GetCloneURL :: "request list \<Rightarrow> (string \<times> error option) \<times> request list" where
  "GetCloneURL sent = (([], Some (Errorf ''not yet implemented'' [])), sent)"

definition GetPullLabels :: "request list \<Rightarrow> (string list \<times> error option) \<times> request list" where
  "GetPullLabels sent = (([], Some (Errorf ''not yet implemented'' [])), sent)"

section \<open>Vocabulary of the properties\<close>

subsection \<open>Pages and their entries\<close>

text \<open>
  The paths of one change entry as the properties name them: the current path, then
  the prior path of a rename.
\<close>

definition entryPaths :: "ChangeValue \<Rightarrow> string list" where
  "entryPaths v =
     (case ToString (Path v) of None \<Rightarrow> [] | Some path \<Rightarrow> [path]) @
     (case SrcPath v of
        None \<Rightarrow> []
      | Some src \<Rightarrow> (case ToString src of None \<Rightarrow> [] | Some srcPath \<Rightarrow> [srcPath]))"

definition pageFiles :: "Changes \<Rightarrow> string list" where
  "pageFiles changes = concat (map entryPaths (Values changes))"

text \<open>Deduplication that keeps the first occurrence of every element, in order.\<close>

function firstSeen :: "'a list \<Rightarrow> 'a list" where
  "firstSeen [] = []"
| "firstSeen (x # xs) = x # firstSeen (filter (\<lambda>y. y \<noteq> x) xs)"
  by pat_completeness auto
termination
  by (relation "measure length") (auto simp: less_Suc_eq_le)

text \<open>The request of one page fetch, for a page offset.\<close>

definition pageRequest :: "Client \<Rightarrow> string \<Rightarrow> int \<Rightarrow> request" where
  "pageRequest b baseURL start =
     \<lparr>Method = ''GET'', URL = pageURL baseURL start,
      Header = [(''Authorization'', ''Bearer '' @ Password b), (''X-Atlassian-Token'', ''no-check'')],
      ReqBody = None\<rparr>"

definition nextStart :: "Changes \<Rightarrow> int" where
  "nextStart changes = (case NextPageStart changes of None \<Rightarrow> 0 | Some n \<Rightarrow> n)"

text \<open>The offsets asked for when the pages \<open>ps\<close> are fetched one after the other.\<close>

fun pageStarts :: "int \<Rightarrow> Changes list \<Rightarrow> int list" where
  "pageStarts start [] = []"
| "pageStarts start (p # ps) = start # pageStarts (nextStart p) ps"

text \<open>
  The server answers the chain of page fetches with the pages \<open>ps\<close>: the fetch at
  \<open>start\<close> succeeds and decodes to the first page, the fetch at that page's next
  offset to the second, and so on. Nothing is said of what it would answer after
  the last page of \<open>ps\<close>.
\<close>

fun servesPages ::
  "Client \<Rightarrow> libs \<Rightarrow> string \<Rightarrow> int \<Rightarrow> request list \<Rightarrow> Changes list \<Rightarrow> bool" where
  "servesPages b L baseURL start sent [] = True"
| "servesPages b L baseURL start sent (p # ps) =
     (case makeRequest b L ''GET'' (pageURL baseURL start) None sent of
        (Inl err, sent') \<Rightarrow> False
      | (Inr resp, sent') \<Rightarrow>
          Unmarshal_Changes L resp = Inr p \<and>
          (ps = [] \<or>
           (case NextPageStart p of
              None \<Rightarrow> False
            | Some n \<Rightarrow> servesPages b L baseURL n sent' ps)))"

subsection \<open>The two errors of response handling\<close>

text \<open>
  The error an operation returns when the validator misses fields, and the one it
  returns when the decoder fails, as the four operations build them.
\<close>

definition schemaError :: "string list \<Rightarrow> string \<Rightarrow> error" where
  "schemaError missing resp =
     Wrapf (ValidationErrors missing) ''API response %q was missing fields'' [S resp]"

definition decodeError :: "error \<Rightarrow> string \<Rightarrow> error" where
  "decodeError err resp = Wrapf err ''Could not parse response %q'' [S resp]"

subsection \<open>A concrete client\<close>

text \<open>
  A repository, a pull request, toy library functions and transports on which the
  operations are run: the decoders know a handful of bodies by name.
\<close>

definition exRepo :: Repo where
  "exRepo = \<lparr>Name = ''atlantis-example'',
             SanitizedCloneURL = ''http://bitbucket.corp:7990/scm/at/atlantis-example.git''\<rparr>"

definition exPull :: models_PullRequest where
  "exPull = \<lparr>Num = 7, BaseRepo = exRepo, HeadBranch = ''feature'', HeadCommit = ''abc123''\<rparr>"

definition page1 :: Changes where
  "page1 = \<lparr>Values = [\<lparr>Path = \<lparr>ToString = Some ''a.tf''\<rparr>, SrcPath = None\<rparr>],
            NextPageStart = Some 1, IsLastPage = Some False\<rparr>"

definition page2 :: Changes where
  "page2 = \<lparr>Values = [\<lparr>Path = \<lparr>ToString = Some ''b.tf''\<rparr>,
                       SrcPath = Some \<lparr>ToString = Some ''old.tf''\<rparr>\<rparr>],
            NextPageStart = None, IsLastPage = Some True\<rparr>"

definition pageNoFlag :: Changes where
  "pageNoFlag = \<lparr>Values = [], NextPageStart = None, IsLastPage = None\<rparr>"

definition exUnmarshal_Changes :: "string \<Rightarrow> error + Changes" where
  "exUnmarshal_Changes body =
     (if body = ''page1'' then Inr page1
      else if body = ''page2'' then Inr page2
      else if body = ''noflag'' then Inr pageNoFlag
      else Inl (External ''invalid character''))"

definition prApproved :: PullRequest where
  "prApproved = \<lparr>Reviewers = [\<lparr>Approved = Some False\<rparr>, \<lparr>Approved = Some True\<rparr>],
                 Version = Some 3\<rparr>"

definition prNoVersion :: PullRequest where
  "prNoVersion = \<lparr>Reviewers = [], Version = None\<rparr>"

definition prFresh :: PullRequest where
  "prFresh = \<lparr>Reviewers = [], Version = Some 0\<rparr>"

definition exUnmarshal_PullRequest :: "string \<Rightarrow> error + PullRequest" where
  "exUnmarshal_PullRequest body =
     (if body = ''approved'' then Inr prApproved
      else if body = ''fresh'' then Inr prFresh
      else if body = ''noversion'' then Inr prNoVersion
      else Inl (External ''invalid character''))"

definition exUnmarshal_MergeStatus :: "string \<Rightarrow> error + MergeStatus" where
  "exUnmarshal_MergeStatus body =
     (if body = ''clean'' then Inr \<lparr>CanMerge = Some True, Conflicted = Some False\<rparr>
      else if body = ''conflicted'' then Inr \<lparr>CanMerge = Some True, Conflicted = Some True\<rparr>
      else if body = ''partial'' then Inr \<lparr>CanMerge = Some True, Conflicted = None\<rparr>
      else Inl (External ''invalid character''))"

definition exMarshal :: "marshal_input \<Rightarrow> error + string" where
  "exMarshal v =
     (case v of
        StringMap kvs \<Rightarrow> Inr (concat (map (\<lambda>(k, x). k @ ''='' @ x @ '';'') kvs))
      | DeleteSourceBranchValue d \<Rightarrow> Inr (''name='' @ DSB_Name d))"

definition exLibs :: libs where
  "exLibs =
     \<lparr>NewRequest = (\<lambda>method url. None),
      regexp_Compile = (\<lambda>expr. None),
      FindStringSubmatch = (\<lambda>expr s. if s = SanitizedCloneURL exRepo then [s, ''at''] else []),
      Unmarshal_Changes = exUnmarshal_Changes,
      Unmarshal_PullRequest = exUnmarshal_PullRequest,
      Unmarshal_MergeStatus = exUnmarshal_MergeStatus,
      Marshal = exMarshal\<rparr>"

text \<open>A transport that answers the \<open>k\<close>-th request with status 200 and the \<open>k\<close>-th body.\<close>

definition scripted :: "string list \<Rightarrow> transport" where
  "scripted bodies sent req =
     (if length sent < length bodies
      then Inr \<lparr>StatusCode = 200, Body = bodies ! length sent, ReadErr = None\<rparr>
      else Inl (External ''connection refused''))"

text \<open>A transport that answers every request with the same response.\<close>

definition always :: "response \<Rightarrow> transport" where
  "always resp sent req = Inr resp"

definition exClient :: "transport \<Rightarrow> Client" where
  "exClient t =
     \<lparr>HTTPClient = t, Username = ''atlantis'', Password = ''token'',
      BaseURL = ''http://bitbucket.corp:7990'', AtlantisURL = ''http://atlantis.corp''\<rparr>"

definition pullRequestRead :: request where
  "pullRequestRead =
     \<lparr>Method = ''GET'',
      URL = ''http://bitbucket.corp:7990/rest/api/1.0/projects/at/repos/atlantis-example/pull-requests/7'',
      Header = [(''Authorization'', ''Bearer token''), (''X-Atlassian-Token'', ''no-check'')],
      ReqBody = None\<rparr>"

section \<open>Properties\<close>

lemma makeRequest_page:
  "makeRequest b L ''GET'' (pageURL u start) None sent = (Inr resp, sent') \<Longrightarrow>
   sent' = sent @ [pageRequest b u start]"
  by (auto simp: makeRequest_def prepRequest_def pageRequest_def Let_def
           split: sum.splits option.splits if_splits)

lemma required_Nil: "required field v = [] \<longleftrightarrow> v \<noteq> None"
  by (simp add: required_def split: option.splits)

lemma validation_result_None: "validation_result missing = None \<longleftrightarrow> missing = []"
  by (simp add: validation_result_def)

lemma validate_Changes_None:
  "validate_Changes p = None \<longleftrightarrow>
   (\<forall>v \<in> set (Values p). missing_ChangeValue v = []) \<and> IsLastPage p \<noteq> None"
  by (auto simp: validate_Changes_def validation_result_None required_Nil)

lemma appendValues_valid:
  "\<forall>v \<in> set vs. missing_ChangeValue v = [] \<Longrightarrow>
   appendValues files vs = Inr (files @ concat (map entryPaths vs))"
proof (induction vs arbitrary: files)
  case Nil
  then show ?case by simp
next
  case (Cons v vs)
  then show ?case
    by (auto simp: missing_ChangeValue_def entryPaths_def required_def split: option.splits)
qed

lemma appendValues_page:
  "validate_Changes p = None \<Longrightarrow> appendValues files (Values p) = Inr (files @ pageFiles p)"
  by (simp add: validate_Changes_None appendValues_valid pageFiles_def)

lemma pageLoop_step:
  assumes "i < maxLoops"
    and "makeRequest b L ''GET'' (pageURL u start) None sent = (Inr resp, sent')"
    and "Unmarshal_Changes L resp = Inr p"
    and "validate_Changes p = None"
    and "IsLastPage p = Some False"
    and "NextPageStart p = Some n"
  shows "pageLoop b L u i start files sent =
         pageLoop b L u (Suc i) n (files @ pageFiles p) sent'"
  using assms by (subst pageLoop.simps) (simp add: appendValues_page)

lemma pageLoop_last:
  assumes "i < maxLoops"
    and "makeRequest b L ''GET'' (pageURL u start) None sent = (Inr resp, sent')"
    and "Unmarshal_Changes L resp = Inr p"
    and "validate_Changes p = None"
    and "IsLastPage p = Some True"
  shows "pageLoop b L u i start files sent = (Inr (files @ pageFiles p), sent')"
  using assms by (subst pageLoop.simps) (simp add: appendValues_page)

lemma pageLoop_done: "pageLoop b L u maxLoops start files sent = (Inr files, sent)"
  by (subst pageLoop.simps) simp

lemma servesPages_Cons:
  "servesPages b L u start sent (p # ps) \<Longrightarrow>
   \<exists>resp. makeRequest b L ''GET'' (pageURL u start) None sent
            = (Inr resp, sent @ [pageRequest b u start]) \<and>
          Unmarshal_Changes L resp = Inr p \<and>
          (ps \<noteq> [] \<longrightarrow> (\<exists>n. NextPageStart p = Some n \<and>
             servesPages b L u n (sent @ [pageRequest b u start]) ps))"
  by (auto split: prod.splits sum.splits option.splits dest: makeRequest_page)

lemma pageLoop_until_last:
  assumes "ps \<noteq> []"
  shows "servesPages b L u start sent ps \<Longrightarrow>
    i + length ps \<le> maxLoops \<Longrightarrow>
    \<forall>p \<in> set ps. validate_Changes p = None \<Longrightarrow>
    \<forall>p \<in> set (butlast ps). IsLastPage p = Some False \<Longrightarrow>
    IsLastPage (last ps) = Some True \<Longrightarrow>
    pageLoop b L u i start files sent =
      (Inr (files @ concat (map pageFiles ps)), sent @ map (pageRequest b u) (pageStarts start ps))"
  using assms
proof (induction ps arbitrary: i start files sent rule: list_nonempty_induct)
  case (single p)
  from servesPages_Cons [OF single.prems(1)] obtain resp where
    r: "makeRequest b L ''GET'' (pageURL u start) None sent
          = (Inr resp, sent @ [pageRequest b u start])"
    and d: "Unmarshal_Changes L resp = Inr p"
    by blast
  from single.prems have "i < maxLoops" "validate_Changes p = None" "IsLastPage p = Some True"
    by simp_all
  from pageLoop_last [OF this(1) r d this(2,3)] show ?case by simp
next
  case (cons p ps)
  from servesPages_Cons [OF cons.prems(1)] cons.hyps obtain resp n where
    r: "makeRequest b L ''GET'' (pageURL u start) None sent
          = (Inr resp, sent @ [pageRequest b u start])"
    and d: "Unmarshal_Changes L resp = Inr p"
    and n: "NextPageStart p = Some n"
    and s: "servesPages b L u n (sent @ [pageRequest b u start]) ps"
    by blast
  from cons.prems cons.hyps have
    "i < maxLoops" "validate_Changes p = None" "IsLastPage p = Some False"
    by simp_all
  from pageLoop_step [OF this(1) r d this(2,3) n]
  have step: "pageLoop b L u i start files sent =
      pageLoop b L u (Suc i) n (files @ pageFiles p) (sent @ [pageRequest b u start])" .
  from cons.prems cons.hyps have
    "Suc i + length ps \<le> maxLoops" "\<forall>p \<in> set ps. validate_Changes p = None"
    "\<forall>p \<in> set (butlast ps). IsLastPage p = Some False" "IsLastPage (last ps) = Some True"
    by simp_all
  from cons.IH [OF s this] step n show ?case
    by (simp add: nextStart_def)
qed

lemma pageLoop_bound:
  assumes "ps \<noteq> []"
  shows "servesPages b L u start sent ps \<Longrightarrow>
    i + length ps = maxLoops \<Longrightarrow>
    \<forall>p \<in> set ps. validate_Changes p = None \<and> IsLastPage p = Some False \<Longrightarrow>
    NextPageStart (last ps) \<noteq> None \<Longrightarrow>
    pageLoop b L u i start files sent =
      (Inr (files @ concat (map pageFiles ps)), sent @ map (pageRequest b u) (pageStarts start ps))"
  using assms
proof (induction ps arbitrary: i start files sent rule: list_nonempty_induct)
  case (single p)
  from servesPages_Cons [OF single.prems(1)] obtain resp where
    r: "makeRequest b L ''GET'' (pageURL u start) None sent
          = (Inr resp, sent @ [pageRequest b u start])"
    and d: "Unmarshal_Changes L resp = Inr p"
    by blast
  from single.prems obtain n where n: "NextPageStart p = Some n" by auto
  from single.prems have "i < maxLoops" "validate_Changes p = None" "IsLastPage p = Some False"
    and i: "Suc i = maxLoops"
    by simp_all
  from pageLoop_step [OF this(1) r d this(2,3) n] i show ?case
    by (simp add: pageLoop_done)
next
  case (cons p ps)
  from servesPages_Cons [OF cons.prems(1)] cons.hyps obtain resp n where
    r: "makeRequest b L ''GET'' (pageURL u start) None sent
          = (Inr resp, sent @ [pageRequest b u start])"
    and d: "Unmarshal_Changes L resp = Inr p"
    and n: "NextPageStart p = Some n"
    and s: "servesPages b L u n (sent @ [pageRequest b u start]) ps"
    by blast
  from cons.prems cons.hyps have
    "i < maxLoops" "validate_Changes p = None" "IsLastPage p = Some False"
    by simp_all
  from pageLoop_step [OF this(1) r d this(2,3) n]
  have step: "pageLoop b L u i start files sent =
      pageLoop b L u (Suc i) n (files @ pageFiles p) (sent @ [pageRequest b u start])" .
  from cons.prems cons.hyps have
    "Suc i + length ps = maxLoops"
    "\<forall>p \<in> set ps. validate_Changes p = None \<and> IsLastPage p = Some False"
    "NextPageStart (last ps) \<noteq> None"
    by simp_all
  from cons.IH [OF s this] step n show ?case
    by (simp add: nextStart_def)
qed

lemma filter_hash_upd:
  "filter (\<lambda>g. \<not> hash_get (hash(f \<mapsto> True)) g) fs =
   filter (\<lambda>y. y \<noteq> f) (filter (\<lambda>g. \<not> hash_get hash g) fs)"
  by (induction fs) (auto simp: hash_get_def)

lemma uniqueLoop_firstSeen:
  "uniqueLoop hash unique fs = unique @ firstSeen (filter (\<lambda>f. \<not> hash_get hash f) fs)"
proof (induction fs arbitrary: hash unique)
  case Nil
  then show ?case by simp
next
  case (Cons f fs)
  show ?case
  proof (cases "hash_get hash f")
    case True
    then show ?thesis by (simp add: Cons.IH)
  next
    case False
    then have "uniqueLoop hash unique (f # fs) = uniqueLoop (hash(f \<mapsto> True)) (unique @ [f]) fs"
      by simp
    also have "\<dots> = (unique @ [f]) @
        firstSeen (filter (\<lambda>y. y \<noteq> f) (filter (\<lambda>g. \<not> hash_get hash g) fs))"
      by (simp only: Cons.IH filter_hash_upd)
    also have "\<dots> = unique @ firstSeen (filter (\<lambda>g. \<not> hash_get hash g) (f # fs))"
      using False by simp
    finally show ?thesis .
  qed
qed

lemma uniqueLoop_empty: "uniqueLoop Map.empty [] fs = firstSeen fs"
  by (simp add: uniqueLoop_firstSeen hash_get_def)

lemma firstSeen_set: "set (firstSeen xs) = set xs"
  by (induction xs rule: firstSeen.induct) auto

lemma firstSeen_distinct: "distinct (firstSeen xs)"
  by (induction xs rule: firstSeen.induct) (auto simp: firstSeen_set)

lemma length_pageStarts: "length (pageStarts start ps) = length ps"
  by (induction ps arbitrary: start) auto

text \<open>
  Claim C2. When the server answers the chain of page fetches with the pages \<open>ps\<close>, each
  with its required fields, and the last of them (the \<open>N\<close>-th, \<open>N \<le> 1000\<close> since the
  loop fetches no more) is the first whose "is last page" flag is true, then
  \<open>GetModifiedFiles\<close> sends exactly the \<open>N\<close> page requests, one per page, and returns the
  paths of the entries of these pages (for a rename the current path and then the prior
  path) with duplicates removed, each path at its first occurrence, and no error.
\<close>

theorem GetModifiedFiles_until_last_page:
  assumes "GetProjectKey L (Name repo) (SanitizedCloneURL repo) = Inr projectKey"
    and "ps \<noteq> []" and "length ps \<le> 1000"
    and "servesPages b L (changesURL b projectKey repo pull) 0 sent ps"
    and "\<forall>p \<in> set ps. validate_Changes p = None"
    and "\<forall>p \<in> set (butlast ps). IsLastPage p = Some False"
    and "IsLastPage (last ps) = Some True"
  shows "GetModifiedFiles b L repo pull sent =
           (Inr (firstSeen (concat (map pageFiles ps))),
            sent @ map (pageRequest b (changesURL b projectKey repo pull)) (pageStarts 0 ps)) \<and>
         length (pageStarts 0 ps) = length ps"
proof -
  from assms(3) have "0 + length ps \<le> maxLoops" by (simp add: maxLoops_def)
  from pageLoop_until_last [OF assms(2) assms(4) this assms(5-7)]
  have "pageLoop b L (changesURL b projectKey repo pull) 0 0 [] sent =
      (Inr (concat (map pageFiles ps)),
       sent @ map (pageRequest b (changesURL b projectKey repo pull)) (pageStarts 0 ps))"
    by simp
  with assms(1) show ?thesis
    by (simp add: GetModifiedFiles_def uniqueLoop_empty length_pageStarts)
qed

lemma exKey: "GetProjectKey exLibs (Name exRepo) (SanitizedCloneURL exRepo) = Inr ''at''"
  by (simp add: GetProjectKey_def exLibs_def exRepo_def)

lemma exChangesURL:
  "changesURL (exClient t) ''at'' exRepo exPull =
   ''http://bitbucket.corp:7990/rest/api/1.0/projects/at/repos/atlantis-example/pull-requests/7/changes''"
  by (simp add: changesURL_def exClient_def exRepo_def exPull_def itoa_def digits.simps digit_char_def)

theorem GetModifiedFiles_until_last_page_witness:
  "servesPages (exClient (scripted [''page1'', ''page2''])) exLibs
     (changesURL (exClient (scripted [''page1'', ''page2''])) ''at'' exRepo exPull) 0 [] [page1, page2] \<and>
   fst (GetModifiedFiles (exClient (scripted [''page1'', ''page2''])) exLibs exRepo exPull []) =
     Inr [''a.tf'', ''b.tf'', ''old.tf''] \<and>
   map URL (snd (GetModifiedFiles (exClient (scripted [''page1'', ''page2''])) exLibs exRepo exPull [])) =
     [''http://bitbucket.corp:7990/rest/api/1.0/projects/at/repos/atlantis-example/pull-requests/7/changes?start=0'',
      ''http://bitbucket.corp:7990/rest/api/1.0/projects/at/repos/atlantis-example/pull-requests/7/changes?start=1'']"
proof -
  let ?b = "exClient (scripted [''page1'', ''page2''])"
  have s: "servesPages ?b exLibs (changesURL ?b ''at'' exRepo exPull) 0 [] [page1, page2]"
    by (simp add: makeRequest_def prepRequest_def exClient_def exLibs_def scripted_def
        exUnmarshal_Changes_def page1_def)
  have v: "\<forall>p \<in> set [page1, page2]. validate_Changes p = None"
    by (simp add: validate_Changes_def validation_result_def missing_ChangeValue_def required_def
        page1_def page2_def)
  have l: "\<forall>p \<in> set (butlast [page1, page2]). IsLastPage p = Some False"
    "IsLastPage (last [page1, page2]) = Some True"
    by (simp_all add: page1_def page2_def)
  have i: "itoa 0 = ''0''" "itoa 1 = ''1''" by (simp_all add: itoa_def digits.simps digit_char_def)
  have ne: "[page1, page2] \<noteq> []" and le: "length [page1, page2] \<le> 1000" by simp_all
  note r = GetModifiedFiles_until_last_page [OF exKey ne le s v l]
  have g: "GetModifiedFiles ?b exLibs exRepo exPull [] =
      (Inr [''a.tf'', ''b.tf'', ''old.tf''],
       [pageRequest ?b (changesURL ?b ''at'' exRepo exPull) 0,
        pageRequest ?b (changesURL ?b ''at'' exRepo exPull) 1])"
    using r by (simp add: pageFiles_def entryPaths_def page1_def page2_def nextStart_def)
  show ?thesis using s
    by (simp add: g pageRequest_def pageURL_def exChangesURL i)
qed

text \<open>
  Claim C3. When each of the first 1000 fetches succeeds with a page that has its
  required fields, reports "is last page" false and (as section 3 of the spec asks of a
  page that is not the last) carries the next page offset, \<open>GetModifiedFiles\<close> stops after
  exactly 1000 page requests and returns the paths gathered, deduplicated, without error.
\<close>

theorem GetModifiedFiles_safety_bound:
  assumes "GetProjectKey L (Name repo) (SanitizedCloneURL repo) = Inr projectKey"
    and "length ps = 1000"
    and "servesPages b L (changesURL b projectKey repo pull) 0 sent ps"
    and "\<forall>p \<in> set ps. validate_Changes p = None \<and> IsLastPage p = Some False \<and>
                       NextPageStart p \<noteq> None"
  shows "GetModifiedFiles b L repo pull sent =
           (Inr (firstSeen (concat (map pageFiles ps))),
            sent @ map (pageRequest b (changesURL b projectKey repo pull)) (pageStarts 0 ps)) \<and>
         length (pageStarts 0 ps) = 1000"
proof -
  from assms(2) have ne: "ps \<noteq> []" by auto
  from assms(2) have len: "0 + length ps = maxLoops" by (simp add: maxLoops_def)
  from ne assms(4) have "NextPageStart (last ps) \<noteq> None" by simp
  from pageLoop_bound [OF ne assms(3) len _ this] assms(4)
  have "pageLoop b L (changesURL b projectKey repo pull) 0 0 [] sent =
      (Inr (concat (map pageFiles ps)),
       sent @ map (pageRequest b (changesURL b projectKey repo pull)) (pageStarts 0 ps))"
    by simp
  with assms(1,2) show ?thesis
    by (simp add: GetModifiedFiles_def uniqueLoop_empty length_pageStarts)
qed

lemma servesPages_always:
  "servesPages (exClient (always \<lparr>StatusCode = 200, Body = ''page1'', ReadErr = None\<rparr>)) exLibs
     u start sent (replicate n page1)"
proof (induction n arbitrary: start sent)
  case 0
  then show ?case by simp
next
  case (Suc n)
  then show ?case
    by (simp add: makeRequest_def prepRequest_def exClient_def exLibs_def always_def
        exUnmarshal_Changes_def page1_def)
qed

lemma firstSeen_replicate: "firstSeen (replicate (Suc n) x) = [x]"
  by (induction n) auto

lemma concat_replicate_single: "concat (replicate n [x]) = replicate n x"
  by (induction n) auto

lemma files_replicate_page1: "concat (map pageFiles (replicate n page1)) = replicate n ''a.tf''"
  by (induction n) (simp_all add: pageFiles_def entryPaths_def page1_def)

theorem GetModifiedFiles_safety_bound_witness:
  "fst (GetModifiedFiles (exClient (always \<lparr>StatusCode = 200, Body = ''page1'', ReadErr = None\<rparr>))
          exLibs exRepo exPull []) = Inr [''a.tf''] \<and>
   length (snd (GetModifiedFiles (exClient (always \<lparr>StatusCode = 200, Body = ''page1'', ReadErr = None\<rparr>))
          exLibs exRepo exPull [])) = 1000"
proof -
  have v: "\<forall>p \<in> set (replicate 1000 page1).
      validate_Changes p = None \<and> IsLastPage p = Some False \<and> NextPageStart p \<noteq> None"
    by (simp add: validate_Changes_def validation_result_def missing_ChangeValue_def required_def
        page1_def)
  have "(1000::nat) = Suc 999" by simp
  then have f: "firstSeen (concat (map pageFiles (replicate 1000 page1))) = [''a.tf'']"
    by (simp only: files_replicate_page1 firstSeen_replicate)
  have len: "length (replicate 1000 page1) = 1000" by simp
  note r = GetModifiedFiles_safety_bound
    [where pull = exPull and sent = "[]", OF exKey len servesPages_always v]
  let ?G = "GetModifiedFiles (exClient (always \<lparr>StatusCode = 200, Body = ''page1'', ReadErr = None\<rparr>))
          exLibs exRepo exPull []"
  from r have "fst ?G = Inr (firstSeen (concat (map pageFiles (replicate 1000 page1))))"
    by (simp only: fst_conv)
  then have 1: "fst ?G = Inr [''a.tf'']" by (simp only: f)
  from r have 2: "length (snd ?G) = 1000"
    by (simp only: snd_conv append_Nil length_map)
  from 1 2 show ?thesis by blast
qed

lemma pullURL_eq:
  "pullURL b k n num = BaseURL b @ ''/rest/api/1.0/projects/'' @ k @ ''/repos/'' @ n @ ''/pull-requests/'' @ itoa num"
  by (simp add: pullURL_def)

lemma mergeURL_eq:
  "mergeURL b k n num v = pullURL b k n num @ ''/merge?version='' @ itoa v"
  by (simp add: mergeURL_def pullURL_def)

lemma prepRequest_Inr:
  "prepRequest b L method path body = Inr req \<Longrightarrow>
   Method req = method \<and> URL req = path \<and> ReqBody req = body"
  by (auto simp: prepRequest_def split: option.splits)

lemma makeRequest_Inr:
  "makeRequest b L method path body sent = (Inr resp, sent') \<Longrightarrow>
   \<exists>req. prepRequest b L method path body = Inr req \<and> sent' = sent @ [req]"
  by (auto simp: makeRequest_def Let_def split: sum.splits option.splits if_splits)

lemma makeRequest_constructed:
  "NewRequest L method path = None \<Longrightarrow>
   \<exists>req. prepRequest b L method path body = Inr req \<and>
         snd (makeRequest b L method path body sent) = sent @ [req]"
  by (auto simp: makeRequest_def prepRequest_def Let_def split: sum.splits option.splits)

lemma makeRequest_snd:
  "snd (makeRequest b L method path body sent) = sent \<or>
   (\<exists>req. prepRequest b L method path body = Inr req \<and>
          snd (makeRequest b L method path body sent) = sent @ [req])"
  by (auto simp: makeRequest_def Let_def split: sum.splits option.splits)

text \<open>
  Claim C5. The status mapping of \<open>UpdateStatus\<close> is total: pending, success and failed
  map to three distinct fixed strings, and every other value of the status type maps to
  the string of failed.
\<close>

theorem bbState_total:
  "bbState PendingCommitStatus = ''INPROGRESS'' \<and>
   bbState SuccessCommitStatus = ''SUCCESSFUL'' \<and>
   bbState FailedCommitStatus = ''FAILED'' \<and>
   distinct [bbState PendingCommitStatus, bbState SuccessCommitStatus, bbState FailedCommitStatus] \<and>
   bbState (OtherCommitStatus n) = bbState FailedCommitStatus"
  by (simp add: bbState_def)

text \<open>
  Claim C7, as amended. For every response the transport returns, \<open>makeRequest\<close> returns
  the body bytes exactly when the status code is 200, 201 or 204 and the body was read
  without error; when reading the body of such a response fails it returns the read
  error, wrapped with the request string; for any other status code it returns an error
  that carries the method and path, the status code and the body text read. In every
  case the request is recorded as sent.
\<close>

theorem makeRequest_classifies:
  assumes "prepRequest b L method path body = Inr req"
    and "HTTPClient b sent req = Inr resp"
  shows "makeRequest b L method path body sent =
     (if StatusCode resp = 200 \<or> StatusCode resp = 201 \<or> StatusCode resp = 204 then
        (case ReadErr resp of
           None \<Rightarrow> Inr (Body resp)
         | Some err \<Rightarrow> Inl (Wrapf err ''reading response from request %q'' [S (method @ '' '' @ path)]))
      else Inl (Errorf ''making request %q unexpected status code: %d, body: %s''
                  [S (method @ '' '' @ path), D (StatusCode resp), S (Body resp)]),
      sent @ [req])"
  using assms by (simp add: makeRequest_def split: option.splits)

theorem makeRequest_read_failure:
  "fst (makeRequest
         (exClient (always \<lparr>StatusCode = 200, Body = ''partial'', ReadErr = Some (External ''unexpected EOF'')\<rparr>))
         exLibs ''GET'' ''http://bitbucket.corp:7990/x'' None []) =
   Inl (Wrapf (External ''unexpected EOF'') ''reading response from request %q''
          [S ''GET http://bitbucket.corp:7990/x''])"
  by (simp add: makeRequest_def prepRequest_def exClient_def exLibs_def always_def)

theorem makeRequest_classifies_witness:
  "makeRequest (exClient (always \<lparr>StatusCode = 404, Body = ''no such pull request'', ReadErr = None\<rparr>))
     exLibs ''GET'' ''http://bitbucket.corp:7990/x'' None [] =
   (Inl (Errorf ''making request %q unexpected status code: %d, body: %s''
           [S ''GET http://bitbucket.corp:7990/x'', D 404, S ''no such pull request'']),
    [\<lparr>Method = ''GET'', URL = ''http://bitbucket.corp:7990/x'',
      Header = [(''Authorization'', ''Bearer token''), (''X-Atlassian-Token'', ''no-check'')],
      ReqBody = None\<rparr>]) \<and>
   fst (makeRequest (exClient (always \<lparr>StatusCode = 204, Body = [], ReadErr = None\<rparr>))
     exLibs ''DELETE'' ''http://bitbucket.corp:7990/x'' (Some ''{}'') []) = Inr []"
proof -
  have p: "prepRequest (exClient t) exLibs ''GET'' ''http://bitbucket.corp:7990/x'' None =
      Inr \<lparr>Method = ''GET'', URL = ''http://bitbucket.corp:7990/x'',
           Header = [(''Authorization'', ''Bearer token''), (''X-Atlassian-Token'', ''no-check'')],
           ReqBody = None\<rparr>" for t
    by (simp add: prepRequest_def exClient_def exLibs_def)
  have q: "prepRequest (exClient t) exLibs ''DELETE'' ''http://bitbucket.corp:7990/x'' (Some ''{}'') =
      Inr \<lparr>Method = ''DELETE'', URL = ''http://bitbucket.corp:7990/x'',
           Header = [(''Authorization'', ''Bearer token''), (''Content-Type'', ''application/json''),
                     (''X-Atlassian-Token'', ''no-check'')],
           ReqBody = Some ''{}''\<rparr>" for t
    by (simp add: prepRequest_def exClient_def exLibs_def)
  have h: "HTTPClient (exClient (always r)) sent req = Inr r" for r sent req
    by (simp add: exClient_def always_def)
  from makeRequest_classifies [OF p h] makeRequest_classifies [OF q h]
  show ?thesis by simp
qed

text \<open>
  Claim C8, as amended. \<open>GetFileContent\<close>, \<open>GetCloneURL\<close> and \<open>GetPullLabels\<close> return a
  "not implemented" error at once and send nothing; \<open>DiscardReviews\<close> sends nothing
  either and returns no error.
\<close>

theorem unimplemented_operations:
  "GetFileContent sent = ((False, [], Some (Errorf ''not implemented'' [])), sent) \<and>
   GetCloneURL sent = (([], Some (Errorf ''not yet implemented'' [])), sent) \<and>
   GetPullLabels sent = (([], Some (Errorf ''not yet implemented'' [])), sent) \<and>
   DiscardReviews sent = (None, sent)"
  by (simp add: GetFileContent_def GetCloneURL_def GetPullLabels_def DiscardReviews_def)

theorem DiscardReviews_no_error: "fst (DiscardReviews []) = None"
  by (simp add: DiscardReviews_def)


lemma validate_MergeStatus_None:
  "validate_MergeStatus m = None \<longleftrightarrow> CanMerge m \<noteq> None \<and> Conflicted m \<noteq> None"
  by (auto simp: validate_MergeStatus_def validation_result_None required_Nil)

text \<open>
  Claim C4. For every mergeability report the decoder returns for the response,
  \<open>PullIsMergeable\<close> returns true if and only if the report's can-merge field is true
  and its conflicted field is false; when both required fields are present the result is
  that boolean, without error.
\<close>

theorem PullIsMergeable_iff:
  assumes "GetProjectKey L (Name repo) (SanitizedCloneURL repo) = Inr projectKey"
    and "makeRequest b L ''GET'' (mergeStatusURL b projectKey (Name repo) (Num pull)) None sent
           = (Inr resp, sent')"
    and "Unmarshal_MergeStatus L resp = Inr mergeStatus"
  shows "(fst (PullIsMergeable b L repo pull sent) = Inr True \<longleftrightarrow>
            CanMerge mergeStatus = Some True \<and> Conflicted mergeStatus = Some False) \<and>
         (validate_MergeStatus mergeStatus = None \<longrightarrow>
            PullIsMergeable b L repo pull sent =
              (Inr (CanMerge mergeStatus = Some True \<and> Conflicted mergeStatus = Some False), sent'))"
  using assms
  by (auto simp: PullIsMergeable_def validate_MergeStatus_None split: option.splits bool.splits)

lemma always_request:
  "makeRequest (exClient (always \<lparr>StatusCode = 200, Body = body, ReadErr = None\<rparr>)) exLibs
     method path reqBody sent =
   (Inr body, sent @ [\<lparr>Method = method, URL = path,
      Header = [(''Authorization'', ''Bearer token'')] @
               (if reqBody \<noteq> None then [(''Content-Type'', ''application/json'')] else []) @
               [(''X-Atlassian-Token'', ''no-check'')],
      ReqBody = reqBody\<rparr>])"
  by (simp add: makeRequest_def prepRequest_def exClient_def exLibs_def always_def)

theorem PullIsMergeable_iff_witness:
  "fst (PullIsMergeable (exClient (always \<lparr>StatusCode = 200, Body = ''clean'', ReadErr = None\<rparr>))
          exLibs exRepo exPull []) = Inr True \<and>
   fst (PullIsMergeable (exClient (always \<lparr>StatusCode = 200, Body = ''conflicted'', ReadErr = None\<rparr>))
          exLibs exRepo exPull []) = Inr False"
proof -
  have c: "Unmarshal_MergeStatus exLibs ''clean'' = Inr \<lparr>CanMerge = Some True, Conflicted = Some False\<rparr>"
    and d: "Unmarshal_MergeStatus exLibs ''conflicted'' = Inr \<lparr>CanMerge = Some True, Conflicted = Some True\<rparr>"
    by (simp_all add: exLibs_def exUnmarshal_MergeStatus_def)
  from PullIsMergeable_iff [where pull = exPull and sent = "[]", OF exKey always_request c]
    PullIsMergeable_iff [where pull = exPull and sent = "[]", OF exKey always_request d]
  show ?thesis
    by (simp add: validate_MergeStatus_None)
qed


lemma validate_PullRequest_None:
  "validate_PullRequest p = None \<longleftrightarrow>
   (\<forall>reviewer \<in> set (Reviewers p). Approved reviewer \<noteq> None) \<and> Version p \<noteq> None"
  by (auto simp: validate_PullRequest_def validation_result_None required_Nil)

lemma reviewersLoop_any:
  "\<forall>reviewer \<in> set rs. Approved reviewer \<noteq> None \<Longrightarrow>
   reviewersLoop rs = Inr \<lparr>IsApproved = (\<exists>reviewer \<in> set rs. Approved reviewer = Some True)\<rparr>"
  by (induction rs) (auto split: option.splits bool.splits)

text \<open>
  Claim C10. For every pull request snapshot that is decoded and has its required
  fields, \<open>PullIsApproved\<close> reports \<open>IsApproved\<close> true if and only if some reviewer entry
  has its approved flag true; otherwise (no reviewer approved, or no reviewer at all) it
  returns the zero approval status, and in both cases no error.
\<close>

theorem PullIsApproved_iff:
  assumes "GetProjectKey L (Name repo) (SanitizedCloneURL repo) = Inr projectKey"
    and "makeRequest b L ''GET'' (pullURL b projectKey (Name repo) (Num pull)) None sent
           = (Inr resp, sent')"
    and "Unmarshal_PullRequest L resp = Inr pullResp"
    and "validate_PullRequest pullResp = None"
  shows "PullIsApproved b L repo pull sent =
           (Inr \<lparr>IsApproved = (\<exists>reviewer \<in> set (Reviewers pullResp). Approved reviewer = Some True)\<rparr>,
            sent')"
proof -
  from assms(4) have "\<forall>reviewer \<in> set (Reviewers pullResp). Approved reviewer \<noteq> None"
    by (simp add: validate_PullRequest_None)
  from reviewersLoop_any [OF this] assms show ?thesis
    by (simp add: PullIsApproved_def)
qed

theorem PullIsApproved_iff_witness:
  "fst (PullIsApproved (exClient (always \<lparr>StatusCode = 200, Body = ''approved'', ReadErr = None\<rparr>))
          exLibs exRepo exPull []) = Inr \<lparr>IsApproved = True\<rparr> \<and>
   fst (PullIsApproved (exClient (always \<lparr>StatusCode = 200, Body = ''fresh'', ReadErr = None\<rparr>))
          exLibs exRepo exPull []) = Inr \<lparr>IsApproved = False\<rparr>"
proof -
  have a: "Unmarshal_PullRequest exLibs ''approved'' = Inr prApproved"
    and f: "Unmarshal_PullRequest exLibs ''fresh'' = Inr prFresh"
    by (simp_all add: exLibs_def exUnmarshal_PullRequest_def)
  have v: "validate_PullRequest prApproved = None" "validate_PullRequest prFresh = None"
    by (simp_all add: validate_PullRequest_def validation_result_def required_def
        prApproved_def prFresh_def)
  from PullIsApproved_iff [where pull = exPull and sent = "[]", OF exKey always_request a v(1)]
    PullIsApproved_iff [where pull = exPull and sent = "[]", OF exKey always_request f v(2)]
  show ?thesis
    by (simp add: prApproved_def prFresh_def)
qed


text \<open>
  Claim C1, as amended. For every merge invocation in which the project key is derived,
  the read of the pull request succeeds, decodes and validates, and the merge request can
  be constructed, \<open>MergePull\<close> sends exactly one read of the pull request resource, then
  exactly one merge write whose version query parameter is the version decoded from
  that read, and after them nothing but at most one branch deletion request (none when
  deletion was not asked for).
\<close>

theorem MergePull_read_then_write:
  assumes key: "GetProjectKey L (Name (BaseRepo pull)) (SanitizedCloneURL (BaseRepo pull)) = Inr projectKey"
    and read: "makeRequest b L ''GET'' (pullURL b projectKey (Name (BaseRepo pull)) (Num pull)) None sent
           = (Inr resp, sent1)"
    and decode: "Unmarshal_PullRequest L resp = Inr pullResp"
    and valid: "validate_PullRequest pullResp = None"
    and version: "Version pullResp = Some version"
    and construct: "NewRequest L ''POST''
           (mergeURL b projectKey (Name (BaseRepo pull)) (Num pull) version) = None"
  shows "\<exists>readReq writeReq rest.
           snd (MergePull b L pull pullOptions sent) = sent @ [readReq, writeReq] @ rest \<and>
           Method readReq = ''GET'' \<and>
           URL readReq = pullURL b projectKey (Name (BaseRepo pull)) (Num pull) \<and>
           Method writeReq = ''POST'' \<and>
           URL writeReq = pullURL b projectKey (Name (BaseRepo pull)) (Num pull)
                            @ ''/merge?version='' @ itoa version \<and>
           (\<forall>r \<in> set rest. Method r = ''DELETE'') \<and> length rest \<le> 1 \<and>
           (\<not> DeleteSourceBranchOnMerge pullOptions \<longrightarrow> rest = [])"
proof -
  let ?repo = "Name (BaseRepo pull)"
  let ?merge = "makeRequest b L ''POST'' (mergeURL b projectKey ?repo (Num pull) version) None sent1"
  from makeRequest_Inr [OF read] obtain readReq where
    rr: "prepRequest b L ''GET'' (pullURL b projectKey ?repo (Num pull)) None = Inr readReq"
    and s1: "sent1 = sent @ [readReq]"
    by blast
  from makeRequest_constructed [OF construct] obtain writeReq where
    wr: "prepRequest b L ''POST'' (mergeURL b projectKey ?repo (Num pull) version) None = Inr writeReq"
    and s2: "snd ?merge = sent1 @ [writeReq]"
    by blast
  have m: "MergePull b L pull pullOptions sent =
      (case ?merge of
         (Inl err, sent2) \<Rightarrow> (Some err, sent2)
       | (Inr x, sent2) \<Rightarrow>
           (if DeleteSourceBranchOnMerge pullOptions then
              (case Marshal L (DeleteSourceBranchValue
                      \<lparr>DSB_Name = ''refs/heads/'' @ HeadBranch pull, DryRun = False\<rparr>) of
                 Inl err \<Rightarrow> (Some (Wrap err ''json encoding''), sent2)
               | Inr bodyBytes \<Rightarrow>
                   (case makeRequest b L ''DELETE''
                           (branchesURL b projectKey ?repo)
                           (Some bodyBytes) sent2 of
                      (Inl err, sent3) \<Rightarrow> (Some err, sent3)
                    | (Inr y, sent3) \<Rightarrow> (None, sent3)))
            else (None, sent2)))"
    using key read decode valid version by (simp add: MergePull_def)
  have "\<exists>rest. snd (MergePull b L pull pullOptions sent) = sent1 @ [writeReq] @ rest \<and>
          (\<forall>r \<in> set rest. Method r = ''DELETE'') \<and> length rest \<le> 1 \<and>
          (\<not> DeleteSourceBranchOnMerge pullOptions \<longrightarrow> rest = [])"
  proof (cases ?merge)
    case (Pair res sent2)
    with s2 have s2': "sent2 = sent1 @ [writeReq]" by simp
    show ?thesis
    proof (cases res)
      case (Inl err)
      with Pair s2' m show ?thesis by simp
    next
      case (Inr x)
      show ?thesis
      proof (cases "DeleteSourceBranchOnMerge pullOptions")
        case False
        with Pair Inr s2' m show ?thesis by simp
      next
        case True
        show ?thesis
        proof (cases "Marshal L (DeleteSourceBranchValue
                      \<lparr>DSB_Name = ''refs/heads/'' @ HeadBranch pull, DryRun = False\<rparr>)")
          case (Inl err)
          with Pair Inr True s2' m show ?thesis by simp
        next
          case (Inr bodyBytes)
          let ?del = "makeRequest b L ''DELETE''
                (branchesURL b projectKey ?repo)
                (Some bodyBytes) sent2"
          have e: "snd (MergePull b L pull pullOptions sent) = snd ?del"
            using Pair \<open>res = Inr x\<close> True Inr m
            by (simp split: prod.splits sum.splits)
          from makeRequest_snd [of b L "''DELETE''" "branchesURL b projectKey ?repo" "Some bodyBytes" sent2]
          consider (unsent) "snd ?del = sent2"
            | (deleted) req where "Method req = ''DELETE''" "snd ?del = sent2 @ [req]"
            by (auto dest: prepRequest_Inr)
          then show ?thesis
          proof cases
            case unsent
            with e s2' True show ?thesis by (intro exI [of _ "[]"]) simp
          next
            case deleted
            with e s2' True show ?thesis by (intro exI [of _ "[req]"]) simp
          qed
        qed
      qed
    qed
  qed
  with s1 prepRequest_Inr [OF rr] prepRequest_Inr [OF wr] show ?thesis
    by (auto simp: mergeURL_eq)
qed

theorem MergePull_failed_read:
  "map Method (snd (MergePull
      (exClient (always \<lparr>StatusCode = 404, Body = ''no such pull request'', ReadErr = None\<rparr>))
      exLibs exPull \<lparr>DeleteSourceBranchOnMerge = False\<rparr> [])) = [''GET'']"
  by (simp add: MergePull_def makeRequest_def prepRequest_def exClient_def exLibs_def always_def
      GetProjectKey_def exPull_def exRepo_def)

theorem MergePull_read_then_write_witness:
  "map (\<lambda>r. (Method r, URL r))
     (snd (MergePull (exClient (scripted [''approved'', ''merged''])) exLibs exPull
             \<lparr>DeleteSourceBranchOnMerge = False\<rparr> [])) =
   [(''GET'', ''http://bitbucket.corp:7990/rest/api/1.0/projects/at/repos/atlantis-example/pull-requests/7''),
    (''POST'', ''http://bitbucket.corp:7990/rest/api/1.0/projects/at/repos/atlantis-example/pull-requests/7/merge?version=3'')]"
proof -
  let ?b = "exClient (scripted [''approved'', ''merged''])"
  have key: "GetProjectKey exLibs (Name (BaseRepo exPull)) (SanitizedCloneURL (BaseRepo exPull)) = Inr ''at''"
    using exKey by (simp add: exPull_def)
  have u: "pullURL ?b ''at'' (Name (BaseRepo exPull)) (Num exPull) =
      ''http://bitbucket.corp:7990/rest/api/1.0/projects/at/repos/atlantis-example/pull-requests/7''"
    by (simp add: pullURL_def exClient_def exRepo_def exPull_def itoa_def digits.simps digit_char_def)
  have read: "makeRequest ?b exLibs ''GET'' (pullURL ?b ''at'' (Name (BaseRepo exPull)) (Num exPull)) None [] =
      (Inr ''approved'', [] @ [\<lparr>Method = ''GET'',
         URL = pullURL ?b ''at'' (Name (BaseRepo exPull)) (Num exPull),
         Header = [(''Authorization'', ''Bearer token''), (''X-Atlassian-Token'', ''no-check'')],
         ReqBody = None\<rparr>])"
    by (simp add: makeRequest_def prepRequest_def exClient_def exLibs_def scripted_def)
  have decode: "Unmarshal_PullRequest exLibs ''approved'' = Inr prApproved"
    by (simp add: exLibs_def exUnmarshal_PullRequest_def)
  have valid: "validate_PullRequest prApproved = None"
    by (simp add: validate_PullRequest_def validation_result_def required_def prApproved_def)
  have version: "Version prApproved = Some 3" by (simp add: prApproved_def)
  have construct: "NewRequest exLibs ''POST'' url = None" for url by (simp add: exLibs_def)
  have i: "itoa 3 = ''3''" by (simp add: itoa_def digits.simps digit_char_def)
  from MergePull_read_then_write
    [where pullOptions = "\<lparr>DeleteSourceBranchOnMerge = False\<rparr>",
      OF key read decode valid version construct]
  show ?thesis
    by (auto simp: u i)
qed


lemma validate_PullRequest_missing:
  assumes "Version p = None \<or> (\<exists>reviewer \<in> set (Reviewers p). Approved reviewer = None)"
  shows "\<exists>missing. missing \<noteq> [] \<and> validate_PullRequest p = Some (ValidationErrors missing)"
proof -
  from assms have "validate_PullRequest p \<noteq> None"
    by (auto simp: validate_PullRequest_None)
  then show ?thesis
    by (auto simp: validate_PullRequest_def validation_result_def split: if_splits)
qed

lemma validate_MergeStatus_missing:
  assumes "CanMerge m = None \<or> Conflicted m = None"
  shows "\<exists>missing. missing \<noteq> [] \<and> validate_MergeStatus m = Some (ValidationErrors missing)"
proof -
  from assms have "validate_MergeStatus m \<noteq> None"
    by (auto simp: validate_MergeStatus_None)
  then show ?thesis
    by (auto simp: validate_MergeStatus_def validation_result_def split: if_splits)
qed

lemma missing_ChangeValue_Nil:
  "missing_ChangeValue v = [] \<longleftrightarrow>
   ToString (Path v) \<noteq> None \<and> (\<forall>src. SrcPath v = Some src \<longrightarrow> ToString src \<noteq> None)"
  by (auto simp: missing_ChangeValue_def required_Nil split: option.splits)

lemma validate_Changes_missing:
  assumes "IsLastPage c = None \<or>
     (\<exists>v \<in> set (Values c). ToString (Path v) = None \<or>
        (\<exists>src. SrcPath v = Some src \<and> ToString src = None))"
  shows "\<exists>missing. missing \<noteq> [] \<and> validate_Changes c = Some (ValidationErrors missing)"
proof -
  from assms have "validate_Changes c \<noteq> None"
    by (auto simp: validate_Changes_None missing_ChangeValue_Nil)
  then show ?thesis
    by (auto simp: validate_Changes_def validation_result_def split: if_splits)
qed

lemma pageLoop_schema_error:
  "servesPages b L u start sent (ps @ [changes]) \<Longrightarrow>
   i + length ps < maxLoops \<Longrightarrow>
   \<forall>p \<in> set ps. validate_Changes p = None \<and> IsLastPage p = Some False \<Longrightarrow>
   validate_Changes changes = Some err \<Longrightarrow>
   \<exists>body. Unmarshal_Changes L body = Inr changes \<and>
     pageLoop b L u i start files sent =
       (Inl (Wrapf err ''API response %q was missing fields'' [S body]),
        sent @ map (pageRequest b u) (pageStarts start (ps @ [changes])))"
proof (induction ps arbitrary: i start files sent)
  case Nil
  from servesPages_Cons [of b L u start sent changes "[]"] Nil.prems(1) obtain body where
    r: "makeRequest b L ''GET'' (pageURL u start) None sent = (Inr body, sent @ [pageRequest b u start])"
    and d: "Unmarshal_Changes L body = Inr changes"
    by auto
  from Nil.prems have "i < maxLoops" by simp
  with r d Nil.prems(4) have "pageLoop b L u i start files sent =
      (Inl (Wrapf err ''API response %q was missing fields'' [S body]), sent @ [pageRequest b u start])"
    by (subst pageLoop.simps) simp
  with d show ?case by auto
next
  case (Cons p ps)
  from servesPages_Cons [of b L u start sent p "ps @ [changes]"] Cons.prems(1) obtain resp n where
    r: "makeRequest b L ''GET'' (pageURL u start) None sent = (Inr resp, sent @ [pageRequest b u start])"
    and d: "Unmarshal_Changes L resp = Inr p"
    and n: "NextPageStart p = Some n"
    and s: "servesPages b L u n (sent @ [pageRequest b u start]) (ps @ [changes])"
    by auto
  from Cons.prems have "i < maxLoops" "validate_Changes p = None" "IsLastPage p = Some False"
    by simp_all
  from pageLoop_step [OF this(1) r d this(2,3) n]
  have step: "pageLoop b L u i start files sent =
      pageLoop b L u (Suc i) n (files @ pageFiles p) (sent @ [pageRequest b u start])" .
  from Cons.prems have "Suc i + length ps < maxLoops"
    "\<forall>p \<in> set ps. validate_Changes p = None \<and> IsLastPage p = Some False"
    by simp_all
  from Cons.IH [OF s this Cons.prems(4)] step n show ?case
    by (simp add: nextStart_def)
qed

text \<open>
  Claim C6. When a response body decodes but the decoded value lacks a required field
  (a pull request without version, or with a reviewer entry without approved flag; a
  mergeability report without can-merge or conflicted; a page of changes, the first or a
  later one, without "is last page" flag or with an entry without path), the operation
  (\<open>MergePull\<close>, \<open>PullIsApproved\<close>, \<open>PullIsMergeable\<close>, \<open>GetModifiedFiles\<close>) returns the
  schema validation error for that body, naming at least one missing field, and sends
  nothing more; this error differs from every decode failure error.
\<close>

theorem missing_required_field_is_schema_error:
  assumes "GetProjectKey L (Name repo) (SanitizedCloneURL repo) = Inr projectKey"
    and "BaseRepo pull = repo"
  shows
    "(makeRequest b L ''GET'' (pullURL b projectKey (Name repo) (Num pull)) None sent
        = (Inr pullBody, sent') \<and>
      Unmarshal_PullRequest L pullBody = Inr pullResp \<and>
      (Version pullResp = None \<or> (\<exists>reviewer \<in> set (Reviewers pullResp). Approved reviewer = None)) \<longrightarrow>
        (\<exists>missing. missing \<noteq> [] \<and>
           MergePull b L pull pullOptions sent = (Some (schemaError missing pullBody), sent') \<and>
           PullIsApproved b L repo pull sent = (Inl (schemaError missing pullBody), sent'))) \<and>
     (makeRequest b L ''GET'' (mergeStatusURL b projectKey (Name repo) (Num pull)) None sent
        = (Inr mergeBody, sent'') \<and>
      Unmarshal_MergeStatus L mergeBody = Inr mergeStatus \<and>
      (CanMerge mergeStatus = None \<or> Conflicted mergeStatus = None) \<longrightarrow>
        (\<exists>missing. missing \<noteq> [] \<and>
           PullIsMergeable b L repo pull sent = (Inl (schemaError missing mergeBody), sent''))) \<and>
     (servesPages b L (changesURL b projectKey repo pull) 0 sent (ps @ [changes]) \<and>
      length ps < 1000 \<and>
      (\<forall>p \<in> set ps. validate_Changes p = None \<and> IsLastPage p = Some False) \<and>
      (IsLastPage changes = None \<or>
       (\<exists>v \<in> set (Values changes). ToString (Path v) = None \<or>
          (\<exists>src. SrcPath v = Some src \<and> ToString src = None))) \<longrightarrow>
        (\<exists>missing body. missing \<noteq> [] \<and> Unmarshal_Changes L body = Inr changes \<and>
           fst (GetModifiedFiles b L repo pull sent) = Inl (schemaError missing body))) \<and>
     schemaError missing resp \<noteq> decodeError err resp"
proof (intro conjI impI)
  assume a: "makeRequest b L ''GET'' (pullURL b projectKey (Name repo) (Num pull)) None sent
        = (Inr pullBody, sent') \<and>
      Unmarshal_PullRequest L pullBody = Inr pullResp \<and>
      (Version pullResp = None \<or> (\<exists>reviewer \<in> set (Reviewers pullResp). Approved reviewer = None))"
  then obtain missing where "missing \<noteq> []"
    "validate_PullRequest pullResp = Some (ValidationErrors missing)"
    using validate_PullRequest_missing by blast
  with a assms show "\<exists>missing. missing \<noteq> [] \<and>
           MergePull b L pull pullOptions sent = (Some (schemaError missing pullBody), sent') \<and>
           PullIsApproved b L repo pull sent = (Inl (schemaError missing pullBody), sent')"
    by (auto simp: MergePull_def PullIsApproved_def schemaError_def)
next
  assume a: "makeRequest b L ''GET'' (mergeStatusURL b projectKey (Name repo) (Num pull)) None sent
        = (Inr mergeBody, sent'') \<and>
      Unmarshal_MergeStatus L mergeBody = Inr mergeStatus \<and>
      (CanMerge mergeStatus = None \<or> Conflicted mergeStatus = None)"
  then obtain missing where "missing \<noteq> []"
    "validate_MergeStatus mergeStatus = Some (ValidationErrors missing)"
    using validate_MergeStatus_missing by blast
  with a assms show "\<exists>missing. missing \<noteq> [] \<and>
           PullIsMergeable b L repo pull sent = (Inl (schemaError missing mergeBody), sent'')"
    by (auto simp: PullIsMergeable_def schemaError_def)
next
  assume a: "servesPages b L (changesURL b projectKey repo pull) 0 sent (ps @ [changes]) \<and>
      length ps < 1000 \<and>
      (\<forall>p \<in> set ps. validate_Changes p = None \<and> IsLastPage p = Some False) \<and>
      (IsLastPage changes = None \<or>
       (\<exists>v \<in> set (Values changes). ToString (Path v) = None \<or>
          (\<exists>src. SrcPath v = Some src \<and> ToString src = None)))"
  then obtain missing where m: "missing \<noteq> []"
    "validate_Changes changes = Some (ValidationErrors missing)"
    using validate_Changes_missing by blast
  from a have "0 + length ps < maxLoops" by (simp add: maxLoops_def)
  from pageLoop_schema_error [OF _ this _ m(2), of b L "changesURL b projectKey repo pull" 0 sent "[]"] a
  obtain body where "Unmarshal_Changes L body = Inr changes"
    "fst (pageLoop b L (changesURL b projectKey repo pull) 0 0 [] sent) =
       Inl (Wrapf (ValidationErrors missing) ''API response %q was missing fields'' [S body])"
    by auto
  with m(1) assms show "\<exists>missing body. missing \<noteq> [] \<and> Unmarshal_Changes L body = Inr changes \<and>
           fst (GetModifiedFiles b L repo pull sent) = Inl (schemaError missing body)"
    by (auto simp: GetModifiedFiles_def schemaError_def split: prod.splits sum.splits)
next
  show "schemaError missing resp \<noteq> decodeError err resp"
    by (simp add: schemaError_def decodeError_def)
qed

theorem missing_required_field_is_schema_error_witness:
  "(\<exists>missing. missing \<noteq> [] \<and>
      MergePull (exClient (always \<lparr>StatusCode = 200, Body = ''noversion'', ReadErr = None\<rparr>))
        exLibs exPull \<lparr>DeleteSourceBranchOnMerge = True\<rparr> [] =
        (Some (schemaError missing ''noversion''), [pullRequestRead]) \<and>
      PullIsApproved (exClient (always \<lparr>StatusCode = 200, Body = ''noversion'', ReadErr = None\<rparr>))
        exLibs exRepo exPull [] =
        (Inl (schemaError missing ''noversion''), [pullRequestRead])) \<and>
   (\<exists>missing. missing \<noteq> [] \<and>
      fst (PullIsMergeable (exClient (always \<lparr>StatusCode = 200, Body = ''partial'', ReadErr = None\<rparr>))
        exLibs exRepo exPull []) = Inl (schemaError missing ''partial'')) \<and>
   (\<exists>missing body. missing \<noteq> [] \<and> Unmarshal_Changes exLibs body = Inr pageNoFlag \<and>
      fst (GetModifiedFiles (exClient (scripted [''page1'', ''noflag''])) exLibs exRepo exPull []) =
        Inl (schemaError missing body))"
proof -
  let ?b1 = "exClient (always \<lparr>StatusCode = 200, Body = ''noversion'', ReadErr = None\<rparr>)"
  let ?b2 = "exClient (always \<lparr>StatusCode = 200, Body = ''partial'', ReadErr = None\<rparr>)"
  let ?b3 = "exClient (scripted [''page1'', ''noflag''])"
  have base: "BaseRepo exPull = exRepo" by (simp add: exPull_def)
  note T = missing_required_field_is_schema_error [OF exKey base]
  have u1: "pullURL ?b1 ''at'' (Name exRepo) (Num exPull) =
      ''http://bitbucket.corp:7990/rest/api/1.0/projects/at/repos/atlantis-example/pull-requests/7''"
    by (simp add: pullURL_def exClient_def exRepo_def exPull_def itoa_def digits.simps digit_char_def)
  have r1: "makeRequest ?b1 exLibs ''GET'' (pullURL ?b1 ''at'' (Name exRepo) (Num exPull)) None [] =
      (Inr ''noversion'', [pullRequestRead])"
    unfolding u1 by (simp add: always_request pullRequestRead_def)
  have d1: "Unmarshal_PullRequest exLibs ''noversion'' = Inr prNoVersion"
    by (simp add: exLibs_def exUnmarshal_PullRequest_def)
  have v1: "Version prNoVersion = None" by (simp add: prNoVersion_def)
  note T1 = T [where b = ?b1 and sent = "[]" and pullBody = "''noversion''"
      and sent' = "[pullRequestRead]" and pullResp = prNoVersion
      and pullOptions = "\<lparr>DeleteSourceBranchOnMerge = True\<rparr>", THEN conjunct1, THEN mp]
  have 1: "\<exists>missing. missing \<noteq> [] \<and>
      MergePull ?b1 exLibs exPull \<lparr>DeleteSourceBranchOnMerge = True\<rparr> [] =
        (Some (schemaError missing ''noversion''), [pullRequestRead]) \<and>
      PullIsApproved ?b1 exLibs exRepo exPull [] =
        (Inl (schemaError missing ''noversion''), [pullRequestRead])"
    by (rule T1 [OF conjI [OF r1 conjI [OF d1 disjI1 [OF v1]]]])
  obtain sent2 where r2: "makeRequest ?b2 exLibs ''GET''
      (mergeStatusURL ?b2 ''at'' (Name exRepo) (Num exPull)) None [] = (Inr ''partial'', sent2)"
    by (simp add: always_request)
  have d2: "Unmarshal_MergeStatus exLibs ''partial'' = Inr \<lparr>CanMerge = Some True, Conflicted = None\<rparr>"
    by (simp add: exLibs_def exUnmarshal_MergeStatus_def)
  have v2: "Conflicted \<lparr>CanMerge = Some True, Conflicted = None\<rparr> = None" by simp
  note T2 = T [where b = ?b2 and sent = "[]" and mergeBody = "''partial''" and sent'' = sent2
      and mergeStatus = "\<lparr>CanMerge = Some True, Conflicted = None\<rparr>",
      THEN conjunct2, THEN conjunct1, THEN mp]
  have "\<exists>missing. missing \<noteq> [] \<and>
      PullIsMergeable ?b2 exLibs exRepo exPull [] = (Inl (schemaError missing ''partial''), sent2)"
    by (rule T2 [OF conjI [OF r2 conjI [OF d2 disjI2 [OF v2]]]])
  then have 2: "\<exists>missing. missing \<noteq> [] \<and>
      fst (PullIsMergeable ?b2 exLibs exRepo exPull []) = Inl (schemaError missing ''partial'')"
  proof (elim exE conjE)
    fix missing :: "string list"
    assume m: "missing \<noteq> []"
      and e: "PullIsMergeable ?b2 exLibs exRepo exPull [] =
        (Inl (schemaError missing ''partial''), sent2)"
    from e have "fst (PullIsMergeable ?b2 exLibs exRepo exPull []) =
        Inl (schemaError missing ''partial'')"
      by (simp only: fst_conv)
    with m show ?thesis by (intro exI conjI)
  qed
  have s3: "servesPages ?b3 exLibs (changesURL ?b3 ''at'' exRepo exPull) 0 [] ([page1] @ [pageNoFlag])"
    by (simp add: makeRequest_def prepRequest_def exClient_def exLibs_def scripted_def
        exUnmarshal_Changes_def page1_def)
  have l3: "length [page1] < 1000" by simp
  have p3: "\<forall>p \<in> set [page1]. validate_Changes p = None \<and> IsLastPage p = Some False"
    by (simp add: validate_Changes_def validation_result_def missing_ChangeValue_def required_def
        page1_def)
  have v3: "IsLastPage pageNoFlag = None" by (simp add: pageNoFlag_def)
  note T3 = T [where b = ?b3 and sent = "[]" and ps = "[page1]" and changes = pageNoFlag,
      THEN conjunct2, THEN conjunct2, THEN conjunct1, THEN mp]
  have 3: "\<exists>missing body. missing \<noteq> [] \<and> Unmarshal_Changes exLibs body = Inr pageNoFlag \<and>
      fst (GetModifiedFiles ?b3 exLibs exRepo exPull []) = Inl (schemaError missing body)"
    by (rule T3 [OF conjI [OF s3 conjI [OF l3 conjI [OF p3 disjI1 [OF v3]]]]])
  show ?thesis by (rule conjI [OF 1 conjI [OF 2 3]])
qed

lemma length_sepEnd: "length sepEnd = 89"
  by (simp add: sepEnd_def)

lemma length_sepStart: "length sepStart = 41"
  by (simp add: sepStart_def)

lemma concat_pieces: "concat (pieces room cmt) = cmt"
proof (induction room cmt rule: pieces.induct)
  case (1 room cmt)
  then show ?case by (subst pieces.simps) auto
qed

lemma pieces_length: "0 < room \<Longrightarrow> p \<in> set (pieces room cmt) \<Longrightarrow> length p \<le> room"
proof (induction room cmt rule: pieces.induct)
  case (1 room cmt)
  from "1.prems"(2) have "p \<in> set (if room = 0 \<or> length cmt \<le> room then [cmt]
      else take room cmt # pieces room (drop room cmt))"
    by (subst (asm) pieces.simps)
  with 1 show ?case by (auto split: if_splits)
qed

lemma continued_not_Nil: "continued e s (q # ps) \<noteq> []"
  by (cases ps) auto

lemma dropEnd_append: "dropEnd e (p @ e) = p"
  by (simp add: dropEnd_def)

lemma strip_continued: "stripContinued e s (continued e s ps) = ps"
proof (induction e s ps rule: continued.induct)
  case (3 e s p q ps)
  obtain d cs where c: "continued e s (q # ps) = d # cs"
    using continued_not_Nil [of e s q ps] by (cases "continued e s (q # ps)") auto
  with 3 show ?case by (simp add: dropEnd_append)
qed simp_all

lemma strip_withMarkers: "stripMarkers e s (withMarkers e s ps) = ps"
proof (cases ps)
  case Nil
  then show ?thesis by simp
next
  case (Cons p qs)
  show ?thesis
  proof (cases qs)
    case Nil
    with Cons show ?thesis by simp
  next
    case (Cons q rs)
    obtain d cs where c: "continued e s (q # rs) = d # cs"
      using continued_not_Nil [of e s q rs] by (cases "continued e s (q # rs)") auto
    have "stripContinued e s (continued e s (q # rs)) = q # rs" by (rule strip_continued)
    with c \<open>ps = p # qs\<close> Cons show ?thesis by (simp add: dropEnd_append)
  qed
qed

lemma continued_length:
  "\<forall>p \<in> set ps. length p \<le> room \<Longrightarrow> c \<in> set (continued e s ps) \<Longrightarrow>
   length c \<le> room + length e + length s"
  by (induction e s ps rule: continued.induct) auto

lemma withMarkers_length:
  assumes "\<forall>p \<in> set ps. length p \<le> room" and "c \<in> set (withMarkers e s ps)"
  shows "length c \<le> room + length e + length s"
proof (cases "(e, s, ps)" rule: withMarkers.cases)
  case (1 e' s')
  with assms show ?thesis by simp
next
  case (2 e' s' p)
  with assms show ?thesis by simp
next
  case (3 e' s' p q qs)
  with assms have "c = p @ e \<or> c \<in> set (continued e s (q # qs))" by simp
  then show ?thesis
  proof
    assume "c = p @ e"
    with 3 assms show ?thesis by simp
  next
    assume "c \<in> set (continued e s (q # qs))"
    moreover from 3 assms have "\<forall>p \<in> set (q # qs). length p \<le> room" by simp
    ultimately show ?thesis by (rule continued_length [rotated])
  qed
qed

text \<open>
  Claim C9. A comment of at most 32768 characters is split into exactly one chunk, the
  comment itself without markers, so \<open>CreateComment\<close> is one call of \<open>postComment\<close> on the
  original text, which (when encoding, project key and request construction succeed)
  sends exactly one comment request with the encoded text as body. For every comment,
  the chunks with their markers cut off concatenate to the original text, and every
  chunk has at most 32768 characters.
\<close>

theorem CreateComment_split:
  "(int (length comment) \<le> 32768 \<longrightarrow>
      SplitComment comment maxCommentLength sepEnd sepStart 0 [] = [comment] \<and>
      CreateComment b L repo pullNum comment sent = postComment b L repo pullNum comment sent \<and>
      (Marshal L (StringMap [(''text'', comment)]) = Inr bodyBytes \<and>
       GetProjectKey L (Name repo) (SanitizedCloneURL repo) = Inr projectKey \<and>
       NewRequest L ''POST'' (commentsURL b projectKey repo pullNum) = None \<longrightarrow>
         snd (CreateComment b L repo pullNum comment sent) =
           sent @ [\<lparr>Method = ''POST'', URL = commentsURL b projectKey repo pullNum,
                    Header = [(''Authorization'', ''Bearer '' @ Password b),
                              (''Content-Type'', ''application/json''),
                              (''X-Atlassian-Token'', ''no-check'')],
                    ReqBody = Some bodyBytes\<rparr>])) \<and>
   concat (stripMarkers sepEnd sepStart
             (SplitComment comment maxCommentLength sepEnd sepStart 0 [])) = comment \<and>
   (\<forall>chunk \<in> set (SplitComment comment maxCommentLength sepEnd sepStart 0 []).
      int (length chunk) \<le> 32768)"
proof (intro conjI impI ballI)
  assume short: "int (length comment) \<le> 32768"
  then show one: "SplitComment comment maxCommentLength sepEnd sepStart 0 [] = [comment]"
    by (simp add: SplitComment_def maxCommentLength_def)
  then show post: "CreateComment b L repo pullNum comment sent = postComment b L repo pullNum comment sent"
    by (simp add: CreateComment_def split: prod.splits option.splits)
  assume "Marshal L (StringMap [(''text'', comment)]) = Inr bodyBytes \<and>
       GetProjectKey L (Name repo) (SanitizedCloneURL repo) = Inr projectKey \<and>
       NewRequest L ''POST'' (commentsURL b projectKey repo pullNum) = None"
  then show "snd (CreateComment b L repo pullNum comment sent) =
           sent @ [\<lparr>Method = ''POST'', URL = commentsURL b projectKey repo pullNum,
                    Header = [(''Authorization'', ''Bearer '' @ Password b),
                              (''Content-Type'', ''application/json''),
                              (''X-Atlassian-Token'', ''no-check'')],
                    ReqBody = Some bodyBytes\<rparr>]"
    unfolding post
    by (auto simp: postComment_def makeRequest_def prepRequest_def Let_def
        split: sum.splits option.splits prod.splits)
next
  show "concat (stripMarkers sepEnd sepStart
             (SplitComment comment maxCommentLength sepEnd sepStart 0 [])) = comment"
    by (simp add: SplitComment_def strip_withMarkers concat_pieces)
next
  fix chunk
  assume c: "chunk \<in> set (SplitComment comment maxCommentLength sepEnd sepStart 0 [])"
  show "int (length chunk) \<le> 32768"
  proof (cases "int (length comment) \<le> maxCommentLength")
    case True
    with c show ?thesis by (simp add: SplitComment_def maxCommentLength_def)
  next
    case False
    let ?room = "32638 :: nat"
    from False c have "chunk \<in> set (withMarkers sepEnd sepStart (pieces ?room comment))"
      by (simp add: SplitComment_def maxCommentLength_def length_sepEnd length_sepStart)
    moreover have "\<forall>p \<in> set (pieces ?room comment). length p \<le> ?room"
      by (auto dest: pieces_length [rotated])
    ultimately have "length chunk \<le> ?room + length sepEnd + length sepStart"
      by (rule withMarkers_length [rotated])
    then show ?thesis by (simp add: length_sepEnd length_sepStart)
  qed
qed

lemma pieces_long:
  "pieces 32638 (replicate 40000 (CHR ''x'')) =
   [replicate 32638 (CHR ''x''), replicate 7362 (CHR ''x'')]"
  by (simp add: pieces.simps)

lemma split_long:
  "SplitComment (replicate 40000 (CHR ''x'')) maxCommentLength sepEnd sepStart 0 [] =
   [replicate 32638 (CHR ''x'') @ sepEnd, sepStart @ replicate 7362 (CHR ''x'')]"
  by (simp add: SplitComment_def maxCommentLength_def length_sepEnd length_sepStart pieces_long)

theorem CreateComment_split_witness:
  "snd (CreateComment (exClient (always \<lparr>StatusCode = 201, Body = [], ReadErr = None\<rparr>))
          exLibs exRepo 7 ''plan'' []) =
     [\<lparr>Method = ''POST'',
       URL = ''http://bitbucket.corp:7990/rest/api/1.0/projects/at/repos/atlantis-example/pull-requests/7/comments'',
       Header = [(''Authorization'', ''Bearer token''), (''Content-Type'', ''application/json''),
                 (''X-Atlassian-Token'', ''no-check'')],
       ReqBody = Some ''text=plan;''\<rparr>] \<and>
   concat (stripMarkers sepEnd sepStart
     [replicate 32638 (CHR ''x'') @ sepEnd, sepStart @ replicate 7362 (CHR ''x'')]) =
     replicate 40000 (CHR ''x'') \<and>
   int (length (replicate 32638 (CHR ''x'') @ sepEnd)) \<le> 32768 \<and>
   int (length (sepStart @ replicate 7362 (CHR ''x''))) \<le> 32768"
proof -
  let ?b = "exClient (always \<lparr>StatusCode = 201, Body = [], ReadErr = None\<rparr>)"
  have short: "int (length ''plan'') \<le> 32768" by simp
  have m: "Marshal exLibs (StringMap [(''text'', ''plan'')]) = Inr ''text=plan;''"
    by (simp add: exLibs_def exMarshal_def)
  have n: "NewRequest exLibs ''POST'' url = None" for url by (simp add: exLibs_def)
  have u: "commentsURL ?b ''at'' exRepo 7 =
      ''http://bitbucket.corp:7990/rest/api/1.0/projects/at/repos/atlantis-example/pull-requests/7/comments''"
    by (simp add: commentsURL_def exClient_def exRepo_def itoa_def digits.simps digit_char_def)
  have p: "Password ?b = ''token''" by (simp add: exClient_def)
  note s = CreateComment_split [of "''plan''" ?b exLibs exRepo 7 "[]" "''text=plan;''" "''at''"]
  from s short m exKey n [of "commentsURL ?b ''at'' exRepo 7"]
  have 1: "snd (CreateComment ?b exLibs exRepo 7 ''plan'' []) =
     [] @ [\<lparr>Method = ''POST'', URL = commentsURL ?b ''at'' exRepo 7,
       Header = [(''Authorization'', ''Bearer '' @ Password ?b), (''Content-Type'', ''application/json''),
                 (''X-Atlassian-Token'', ''no-check'')],
       ReqBody = Some ''text=plan;''\<rparr>]"
    by blast
  note l = CreateComment_split
    [of "replicate 40000 (CHR ''x'')" ?b exLibs exRepo 7 "[]" "[]" "[]", unfolded split_long]
  from l have 2: "concat (stripMarkers sepEnd sepStart
     [replicate 32638 (CHR ''x'') @ sepEnd, sepStart @ replicate 7362 (CHR ''x'')]) =
     replicate 40000 (CHR ''x'')"
    by blast
  from l have "\<forall>chunk \<in> set [replicate 32638 (CHR ''x'') @ sepEnd, sepStart @ replicate 7362 (CHR ''x'')].
      int (length chunk) \<le> 32768"
    by blast
  then have 3: "int (length (replicate 32638 (CHR ''x'') @ sepEnd)) \<le> 32768"
    and 4: "int (length (sepStart @ replicate 7362 (CHR ''x''))) \<le> 32768"
    by (simp_all only: list.set ball_simps insert_iff empty_iff simp_thms)
  from 1 2 3 4 show ?thesis by (simp only: u p append.simps simp_thms)
qed

end
